theory Spec2Isabelle
  imports Main "HOL-Library.Log_Nat"
begin

section \<open>Python values used by calc_service\<close>

subsection \<open>Strings\<close>

text \<open>
  A Python \<open>str\<close> is a sequence of Unicode code points, so it is modelled as a list of
  natural numbers. \<open>py\<close> turns an ASCII literal into such a string. Two code points outside
  ASCII occur in the source: the arrow U+2192 in \<open>CONV_RE\<close> and the non-breaking hyphen
  U+2011 in the key \<open>fl-oz\<close> of \<open>VOL_ML\<close>.
\<close>

type_synonym pystr = "nat list"

definition py :: "string \<Rightarrow> pystr" where
  "py s = map of_char s"

definition arrow :: pystr where
  "arrow = [8594]"

text \<open>
  \<open>str.lower()\<close>. ASCII capitals are mapped to small letters. Of all other code points only
  KELVIN SIGN (U+212A, lowered to \<open>k\<close>) and LATIN CAPITAL LETTER I WITH DOT ABOVE (U+0130,
  lowered to \<open>i\<close> followed by U+0307) have an ASCII character in their lower-case form; they
  are mapped as Python maps them. Every other code point is left as it is: Python lowers
  such a letter to other non-ASCII letters, which occur in no key of the unit tables, so the
  table look-ups of \<open>convert\<close> cannot tell the difference.
\<close>

definition lower_cp :: "nat \<Rightarrow> pystr" where
  "lower_cp c =
     (if 65 \<le> c \<and> c \<le> 90 then [c + 32]
      else if c = 8490 then [107]
      else if c = 304 then [105, 775]
      else [c])"

definition str_lower :: "pystr \<Rightarrow> pystr" where
  "str_lower s = concat (map lower_cp s)"

subsection \<open>Floating point numbers\<close>

text \<open>
  A Python \<open>float\<close> is an IEEE 754 binary64 number: a finite value (kept as the rational it
  denotes), an infinity or a NaN. The sign of zero is not kept; it cannot be observed through
  the results of \<open>safe_eval\<close> (an integral float is turned into an \<open>int\<close>, and the shorthand
  path only produces values that are not negative).
  \<open>round64 q\<close> is the double nearest to the rational \<open>q\<close>, ties to even, with gradual
  underflow (the smallest exponent is \<open>-1074\<close>) and overflow to infinity.
\<close>

datatype fl = Fin rat | PInf | NInf | NaN

definition round_half_even :: "rat \<Rightarrow> int" where
  "round_half_even q =
     (let f = \<lfloor>q\<rfloor>; d = q - of_int f
      in if d < 1/2 then f else if 1/2 < d then f + 1 else if even f then f else f + 1)"

definition ilog2 :: "rat \<Rightarrow> int" where
  "ilog2 q =
     (let (a, b) = quotient_of q;
          k = int (floorlog 2 (nat a)) - int (floorlog 2 (nat b))
      in if 2 powi k \<le> q then k else k - 1)"

definition round64_pos :: "rat \<Rightarrow> rat" where
  "round64_pos q =
     (let p = max (ilog2 q - 52) (- 1074)
      in of_int (round_half_even (q / 2 powi p)) * 2 powi p)"

definition round64 :: "rat \<Rightarrow> fl" where
  "round64 q =
     (if q = 0 then Fin 0
      else if 0 < q then (let r = round64_pos q in if 2 ^ 1024 \<le> r then PInf else Fin r)
      else (let r = round64_pos (- q) in if 2 ^ 1024 \<le> r then NInf else Fin (- r)))"

fun fneg :: "fl \<Rightarrow> fl" where
  "fneg (Fin q) = Fin (- q)"
| "fneg PInf = NInf"
| "fneg NInf = PInf"
| "fneg NaN = NaN"

fun fadd :: "fl \<Rightarrow> fl \<Rightarrow> fl" where
  "fadd (Fin a) (Fin b) = round64 (a + b)"
| "fadd NaN y = NaN"
| "fadd x NaN = NaN"
| "fadd PInf NInf = NaN"
| "fadd NInf PInf = NaN"
| "fadd PInf y = PInf"
| "fadd NInf y = NInf"
| "fadd x PInf = PInf"
| "fadd x NInf = NInf"

definition fsub :: "fl \<Rightarrow> fl \<Rightarrow> fl" where
  "fsub x y = fadd x (fneg y)"

fun fsign :: "fl \<Rightarrow> int" where
  "fsign (Fin q) = (if q < 0 then - 1 else if q = 0 then 0 else 1)"
| "fsign PInf = 1"
| "fsign NInf = - 1"
| "fsign NaN = 0"

definition inf_of_sign :: "int \<Rightarrow> fl" where
  "inf_of_sign s = (if s = 0 then NaN else if 0 < s then PInf else NInf)"

fun fmul :: "fl \<Rightarrow> fl \<Rightarrow> fl" where
  "fmul (Fin a) (Fin b) = round64 (a * b)"
| "fmul NaN y = NaN"
| "fmul x NaN = NaN"
| "fmul x y = inf_of_sign (fsign x * fsign y)"

text \<open>\<open>fdiv\<close> is only used with a divisor that is not zero.\<close>

fun fdiv :: "fl \<Rightarrow> fl \<Rightarrow> fl" where
  "fdiv (Fin a) (Fin b) = round64 (a / b)"
| "fdiv NaN y = NaN"
| "fdiv x NaN = NaN"
| "fdiv (Fin a) y = Fin 0"
| "fdiv x (Fin b) = inf_of_sign (fsign x * fsign (Fin b))"
| "fdiv x y = NaN"

fun is_integer :: "fl \<Rightarrow> bool" where
  "is_integer (Fin q) = (of_int \<lfloor>q\<rfloor> = q)"
| "is_integer x = False"

text \<open>\<open>int(x)\<close> truncates towards zero; \<open>safe_eval\<close> applies it to integral floats only.\<close>

fun int_of_float :: "fl \<Rightarrow> int" where
  "int_of_float (Fin q) = (if 0 \<le> q then \<lfloor>q\<rfloor> else \<lceil>q\<rceil>)"
| "int_of_float x = 0"

text \<open>
  \<open>float % float\<close> for a divisor that is not zero, as CPython's \<open>float_rem\<close> computes it:
  C's \<open>fmod\<close> (exact), then the divisor is added once when the signs differ.
\<close>

fun fmod_c :: "fl \<Rightarrow> fl \<Rightarrow> fl" where
  "fmod_c (Fin a) (Fin b) = Fin (a - b * of_int (if 0 \<le> a / b then \<lfloor>a / b\<rfloor> else \<lceil>a / b\<rceil>))"
| "fmod_c NaN y = NaN"
| "fmod_c x NaN = NaN"
| "fmod_c (Fin a) y = Fin a"
| "fmod_c x y = NaN"

definition float_rem :: "fl \<Rightarrow> fl \<Rightarrow> fl" where
  "float_rem vx wx =
     (let m = fmod_c vx wx
      in if m = Fin 0 then Fin 0
         else if (fsign wx < 0) \<noteq> (fsign m < 0) then fadd m wx else m)"

subsection \<open>Values\<close>

text \<open>
  The objects an expression can evaluate to: the constants the parser stores in an
  \<open>ast.Constant\<close> node (\<open>int\<close>, \<open>float\<close>, \<open>complex\<close>, \<open>str\<close>, \<open>bytes\<close>, \<open>bool\<close>, \<open>None\<close>,
  \<open>Ellipsis\<close>) and the callables of \<open>MATH_FUNCS\<close>: a function of the \<open>math\<close> module, named by
  its attribute, or \<open>_convert\<close>.
\<close>

datatype callable = MathFn pystr | ConvertFn

datatype pyval =
    VInt int
  | VFloat fl
  | VComplex fl fl
  | VStr pystr
  | VBytes "nat list"
  | VBool bool
  | VNone
  | VEllipsis
  | VFunc callable

subsection \<open>Expression trees\<close>

text \<open>
  The expression nodes of Python's \<open>ast\<close> module. The node classes that \<open>_eval\<close> tests for are
  constructors of their own, and so are attribute access, indexing, comparison and boolean
  operators; \<open>OtherNode\<close> stands for every other expression class (\<open>IfExp\<close>, \<open>Lambda\<close>,
  \<open>List\<close>, \<open>Starred\<close>, ...), with the name of the class and the sub-expressions. A keyword
  argument of a call is a pair of its name (\<open>None\<close> for \<open>**kwargs\<close>) and its value.
  \<open>ast.Pow\<close> and \<open>ast.Not\<close> are written \<open>Power\<close> and \<open>UNot\<close>.
\<close>

datatype operator =
  Add | Sub | Mult | MatMult | Div | Mod | Power | LShift | RShift | BitOr | BitXor | BitAnd | FloorDiv

datatype unaryop = Invert | UNot | UAdd | USub

datatype boolop = And | Or

datatype cmpop = Eq | NotEq | Lt | LtE | Gt | GtE | Is | IsNot | In | NotIn

datatype node =
    Constant pyval
  | BinOp node operator node
  | UnaryOp unaryop node
  | Name pystr
  | Call node "node list" "(pystr option \<times> node) list"
  | Attribute node pystr
  | Subscript node node
  | Compare node "cmpop list" "node list"
  | BoolOp boolop "node list"
  | OtherNode string "node list"

subsection \<open>Exceptions\<close>

text \<open>
  The exceptions the module raises itself carry what the source puts into them:
  \<open>NameError(node.id)\<close>, \<open>ValueError(f"Unsupported node: {ast.dump(node)}")\<close> (the node stands
  for its dump), \<open>ValueError(f"Can't convert '{from_u}' to '{to_u}'")\<close>, and the \<open>KeyError\<close> of
  the look-up \<open>OPS[type(node.op)]\<close> (the missing key). \<open>ValueError_unsupported_expression\<close> is
  the \<open>ValueError(f"Unsupported expression node: {ast.dump(node)}")\<close> of the module
  \<open>src/__init__.py\<close>. The others are raised by the Python
  runtime; \<open>Raised c\<close> is any exception of class \<open>c\<close> not listed by name, for instance the
  \<open>SyntaxError\<close> of \<open>ast.parse\<close> or the \<open>ValueError\<close> of a \<open>math\<close> function. All of them are
  subclasses of \<open>Exception\<close>.
\<close>

datatype opclass = BinCls operator | UnCls unaryop

datatype pyerr =
    NameError pystr
  | ValueError_unsupported node
  | ValueError_unsupported_expression node
  | ValueError_cant_convert pyval pyval
  | KeyError opclass
  | ZeroDivisionError
  | OverflowError
  | TypeError
  | AttributeError
  | Raised string


subsection \<open>The Python runtime\<close>

text \<open>
  What the module takes from the Python runtime and is not fixed by this development:
  \<^item> \<open>ast_parse\<close>: \<open>ast.parse(expr, mode="eval").body\<close>, or the exception of the parser;
  \<^item> \<open>math_call name args\<close>: the call \<open>math.name(*args)\<close> of a function of \<open>MATH_FUNCS\<close>; these
    functions return a \<open>float\<close> or raise;
  \<^item> \<open>float_pow\<close>: \<open>float.__pow__\<close> (the C library's \<open>pow\<close>; the result may be complex);
  \<^item> \<open>other_op\<close>: an \<open>operator\<close> function applied to arguments that are not all numbers
    (\<open>int\<close>, \<open>bool\<close>, \<open>float\<close>), for instance strings or complex numbers;
  \<^item> \<open>py_str\<close>: \<open>str(res)\<close>, which may raise (the digit limit of \<open>int\<close> conversion);
  \<^item> \<open>exc_str\<close>: \<open>str(err)\<close> of an exception.
\<close>

datatype opfun = op_add | op_sub | op_mul | op_truediv | op_pow | op_mod | op_neg

record runtime =
  ast_parse :: "pystr \<Rightarrow> pyerr + node"
  math_call :: "pystr \<Rightarrow> pyval list \<Rightarrow> pyerr + fl"
  float_pow :: "fl \<Rightarrow> fl \<Rightarrow> pyerr + pyval"
  other_op :: "opfun \<Rightarrow> pyval list \<Rightarrow> pyerr + pyval"
  py_str :: "pyval \<Rightarrow> pyerr + pystr"
  exc_str :: "pyerr \<Rightarrow> pystr"

section \<open>custom_components/calc_service/__init__.py\<close>

subsection \<open>Math evaluation: the tables\<close>

definition OPS :: "(opclass \<times> opfun) list" where
  "OPS =
     [(BinCls Add, op_add), (BinCls Sub, op_sub),
      (BinCls Mult, op_mul), (BinCls Div, op_truediv),
      (BinCls Power, op_pow), (BinCls Mod, op_mod),
      (UnCls USub, op_neg)]"

text \<open>
  \<open>math.pi\<close>, \<open>math.e\<close> and \<open>math.tau\<close> are the doubles nearest to the three constants. The
  entry \<open>convert\<close> is the one the source adds after the definition of \<open>_convert\<close>.
\<close>

definition MATH_FUNCS :: "(pystr \<times> pyval) list" where
  "MATH_FUNCS =
     [(py ''pi'', VFloat (Fin (884279719003555 / 281474976710656))),
      (py ''e'', VFloat (Fin (6121026514868073 / 2251799813685248))),
      (py ''tau'', VFloat (Fin (884279719003555 / 140737488355328)))]
     @ map (\<lambda>name. (py name, VFunc (MathFn (py name))))
         [''sin'', ''cos'', ''tan'',
          ''asin'', ''acos'', ''atan'',
          ''sqrt'', ''log'', ''log10'', ''log2'', ''exp'']
     @ [(py ''convert'', VFunc ConvertFn)]"

subsection \<open>Kitchen units\<close>

text \<open>A float literal of the source denotes the double nearest to its decimal value.\<close>

definition float_lit :: "rat \<Rightarrow> pyval" where
  "float_lit q = VFloat (round64 q)"

definition VOL_ML :: "(pystr \<times> pyval) list" where
  "VOL_ML =
     [(py ''ml'', VInt 1), (py ''milliliter'', VInt 1), (py ''milliliters'', VInt 1),
      (py ''l'', VInt 1000), (py ''liter'', VInt 1000), (py ''liters'', VInt 1000),
      (py ''cup'', float_lit (236588 / 1000)), (py ''cups'', float_lit (236588 / 1000)),
      (py ''tbsp'', VInt 15), (py ''tablespoon'', VInt 15), (py ''tablespoons'', VInt 15),
      (py ''tsp'', VInt 5), (py ''teaspoon'', VInt 5), (py ''teaspoons'', VInt 5),
      (py ''fl_oz'', float_lit (295735 / 10000)), (py ''floz'', float_lit (295735 / 10000)),
      (py ''fl'' @ [8209] @ py ''oz'', float_lit (295735 / 10000)),
      (py ''fluidounce'', float_lit (295735 / 10000))]"

definition MASS_G :: "(pystr \<times> pyval) list" where
  "MASS_G =
     [(py ''g'', VInt 1), (py ''gram'', VInt 1), (py ''grams'', VInt 1),
      (py ''kg'', VInt 1000), (py ''kilogram'', VInt 1000), (py ''kilograms'', VInt 1000),
      (py ''oz'', float_lit (283495 / 10000)), (py ''ounce'', float_lit (283495 / 10000)),
      (py ''ounces'', float_lit (283495 / 10000)),
      (py ''lb'', float_lit (453592 / 1000)), (py ''lbs'', float_lit (453592 / 1000)),
      (py ''pound'', float_lit (453592 / 1000)), (py ''pounds'', float_lit (453592 / 1000))]"

subsection \<open>Arithmetic of the operator module\<close>

text \<open>
  The numbers are \<open>int\<close>, \<open>bool\<close> (an \<open>int\<close> 0 or 1) and \<open>float\<close>. Two integers are combined
  exactly; otherwise both operands are converted to \<open>float\<close>, which raises \<open>OverflowError\<close> for
  an integer beyond the range of a double. True division of integers is the correctly
  rounded quotient. Arguments that are not numbers go to the runtime.
\<close>

datatype num = NI int | NF fl

fun as_num :: "pyval \<Rightarrow> num option" where
  "as_num (VInt i) = Some (NI i)"
| "as_num (VBool b) = Some (NI (if b then 1 else 0))"
| "as_num (VFloat x) = Some (NF x)"
| "as_num v = None"

definition finite_or_overflow :: "fl \<Rightarrow> pyerr + fl" where
  "finite_or_overflow x = (if x = PInf \<or> x = NInf then Inl OverflowError else Inr x)"

fun to_float :: "num \<Rightarrow> pyerr + fl" where
  "to_float (NI i) = finite_or_overflow (round64 (of_int i))"
| "to_float (NF x) = Inr x"

definition float_op ::
  "(fl \<Rightarrow> fl \<Rightarrow> pyerr + pyval) \<Rightarrow> num \<Rightarrow> num \<Rightarrow> pyerr + pyval" where
  "float_op f a b =
     (case to_float a of Inl e \<Rightarrow> Inl e
      | Inr x \<Rightarrow> (case to_float b of Inl e \<Rightarrow> Inl e | Inr y \<Rightarrow> f x y))"

definition py_add :: "runtime \<Rightarrow> pyval \<Rightarrow> pyval \<Rightarrow> pyerr + pyval" where
  "py_add rt a b =
     (case (as_num a, as_num b) of
        (Some (NI i), Some (NI j)) \<Rightarrow> Inr (VInt (i + j))
      | (Some x, Some y) \<Rightarrow> float_op (\<lambda>u v. Inr (VFloat (fadd u v))) x y
      | _ \<Rightarrow> other_op rt op_add [a, b])"

definition py_sub :: "runtime \<Rightarrow> pyval \<Rightarrow> pyval \<Rightarrow> pyerr + pyval" where
  "py_sub rt a b =
     (case (as_num a, as_num b) of
        (Some (NI i), Some (NI j)) \<Rightarrow> Inr (VInt (i - j))
      | (Some x, Some y) \<Rightarrow> float_op (\<lambda>u v. Inr (VFloat (fsub u v))) x y
      | _ \<Rightarrow> other_op rt op_sub [a, b])"

definition py_mul :: "runtime \<Rightarrow> pyval \<Rightarrow> pyval \<Rightarrow> pyerr + pyval" where
  "py_mul rt a b =
     (case (as_num a, as_num b) of
        (Some (NI i), Some (NI j)) \<Rightarrow> Inr (VInt (i * j))
      | (Some x, Some y) \<Rightarrow> float_op (\<lambda>u v. Inr (VFloat (fmul u v))) x y
      | _ \<Rightarrow> other_op rt op_mul [a, b])"

definition py_truediv :: "runtime \<Rightarrow> pyval \<Rightarrow> pyval \<Rightarrow> pyerr + pyval" where
  "py_truediv rt a b =
     (case (as_num a, as_num b) of
        (Some (NI i), Some (NI j)) \<Rightarrow>
          (if j = 0 then Inl ZeroDivisionError
           else (case finite_or_overflow (round64 (of_int i / of_int j)) of
                   Inl e \<Rightarrow> Inl e | Inr q \<Rightarrow> Inr (VFloat q)))
      | (Some x, Some y) \<Rightarrow>
          float_op (\<lambda>u v. if v = Fin 0 then Inl ZeroDivisionError else Inr (VFloat (fdiv u v))) x y
      | _ \<Rightarrow> other_op rt op_truediv [a, b])"

definition py_mod :: "runtime \<Rightarrow> pyval \<Rightarrow> pyval \<Rightarrow> pyerr + pyval" where
  "py_mod rt a b =
     (case (as_num a, as_num b) of
        (Some (NI i), Some (NI j)) \<Rightarrow>
          (if j = 0 then Inl ZeroDivisionError else Inr (VInt (i mod j)))
      | (Some x, Some y) \<Rightarrow>
          float_op (\<lambda>u v. if v = Fin 0 then Inl ZeroDivisionError
                          else Inr (VFloat (float_rem u v))) x y
      | _ \<Rightarrow> other_op rt op_mod [a, b])"

definition py_pow :: "runtime \<Rightarrow> pyval \<Rightarrow> pyval \<Rightarrow> pyerr + pyval" where
  "py_pow rt a b =
     (case (as_num a, as_num b) of
        (Some (NI i), Some (NI j)) \<Rightarrow>
          (if 0 \<le> j then Inr (VInt (i ^ nat j)) else float_op (float_pow rt) (NI i) (NI j))
      | (Some x, Some y) \<Rightarrow> float_op (float_pow rt) x y
      | _ \<Rightarrow> other_op rt op_pow [a, b])"

definition py_neg :: "runtime \<Rightarrow> pyval \<Rightarrow> pyerr + pyval" where
  "py_neg rt a =
     (case as_num a of
        Some (NI i) \<Rightarrow> Inr (VInt (- i))
      | Some (NF x) \<Rightarrow> Inr (VFloat (fneg x))
      | None \<Rightarrow> other_op rt op_neg [a])"

text \<open>
  The call of an \<open>operator\<close> function with the given arguments. \<open>_eval\<close> passes two
  arguments for a \<open>BinOp\<close> and one for a \<open>UnaryOp\<close>; any other number is a \<open>TypeError\<close>.
\<close>

fun call_op :: "runtime \<Rightarrow> opfun \<Rightarrow> pyval list \<Rightarrow> pyerr + pyval" where
  "call_op rt op_add [a, b] = py_add rt a b"
| "call_op rt op_sub [a, b] = py_sub rt a b"
| "call_op rt op_mul [a, b] = py_mul rt a b"
| "call_op rt op_truediv [a, b] = py_truediv rt a b"
| "call_op rt op_pow [a, b] = py_pow rt a b"
| "call_op rt op_mod [a, b] = py_mod rt a b"
| "call_op rt op_neg [a] = py_neg rt a"
| "call_op rt f args = Inl TypeError"


subsection \<open>\<open>_convert\<close>\<close>

text \<open>
  \<open>_convert\<close> is written \<open>convert\<close>, the name under which the source puts it into
  \<open>MATH_FUNCS\<close>. Called from an expression its arguments can be any values: \<open>.lower()\<close> exists
  for \<open>str\<close> and \<open>bytes\<close> and raises \<open>AttributeError\<close> for the others, and only a \<open>str\<close> can be
  a key of the unit tables.
\<close>

fun py_lower :: "pyval \<Rightarrow> pyerr + pyval" where
  "py_lower (VStr s) = Inr (VStr (str_lower s))"
| "py_lower (VBytes b) = Inr (VBytes (map (\<lambda>c. if 65 \<le> c \<and> c \<le> 90 then c + 32 else c) b))"
| "py_lower v = Inl AttributeError"

fun dict_get :: "(pystr \<times> pyval) list \<Rightarrow> pyval \<Rightarrow> pyval option" where
  "dict_get d (VStr s) = map_of d s"
| "dict_get d v = None"

definition mul_div :: "runtime \<Rightarrow> pyval \<Rightarrow> pyval \<Rightarrow> pyval \<Rightarrow> pyerr + pyval" where
  "mul_div rt val f t =
     (case py_mul rt val f of Inl e \<Rightarrow> Inl e | Inr p \<Rightarrow> py_truediv rt p t)"

definition convert :: "runtime \<Rightarrow> pyval \<Rightarrow> pyval \<Rightarrow> pyval \<Rightarrow> pyerr + pyval" where
  "convert rt val from_u to_u =
     (case py_lower from_u of Inl e \<Rightarrow> Inl e
      | Inr fu \<Rightarrow>
     (case py_lower to_u of Inl e \<Rightarrow> Inl e
      | Inr tu \<Rightarrow>
     (case (dict_get VOL_ML fu, dict_get VOL_ML tu) of
        (Some f, Some t) \<Rightarrow> mul_div rt val f t
      | _ \<Rightarrow>
     (case (dict_get MASS_G fu, dict_get MASS_G tu) of
        (Some f, Some t) \<Rightarrow> mul_div rt val f t
      | _ \<Rightarrow> Inl (ValueError_cant_convert from_u to_u)))))"

subsection \<open>Regular expressions\<close>

text \<open>
  The part of Python's \<open>re\<close> that \<open>CONV_RE\<close> uses. The character classes of a \<open>str\<close> pattern
  are Unicode classes: \<open>\s\<close> is the white space of \<open>str.isspace\<close>, \<open>\d\<close> the decimal digits
  (category Nd, which come in runs of ten from a zero digit; the zero digits listed are those
  of Unicode 14), and \<open>[a-zA-Z_]\<close> is ASCII.
\<close>

datatype cclass = Space | Digit | UnitChar

definition white_space :: "nat list" where
  "white_space =
     [9, 10, 11, 12, 13, 28, 29, 30, 31, 32, 133, 160, 5760,
      8192, 8193, 8194, 8195, 8196, 8197, 8198, 8199, 8200, 8201, 8202,
      8232, 8233, 8239, 8287, 12288]"

definition zero_digits :: "nat list" where
  "zero_digits =
     [48, 1632, 1776, 1984, 2406, 2534, 2662, 2790, 2918, 3046, 3174, 3302, 3430, 3558,
      3664, 3792, 3872, 4160, 4240, 6112, 6160, 6470, 6608, 6784, 6800, 6992, 7088, 7232,
      7248, 42528, 43216, 43264, 43472, 43504, 43600, 44016, 65296, 66720, 68912, 69734,
      69872, 69942, 70096, 70384, 70736, 70864, 71248, 71360, 71472, 71904, 72016, 72784,
      73040, 73120, 92768, 92864, 93008, 120782, 120792, 120802, 120812, 120822, 123200,
      123632, 125264, 130032]"

definition decimal_value :: "nat \<Rightarrow> nat option" where
  "decimal_value c =
     (case filter (\<lambda>z. z \<le> c \<and> c < z + 10) zero_digits of
        [] \<Rightarrow> None
      | z # _ \<Rightarrow> Some (c - z))"

fun in_class :: "cclass \<Rightarrow> nat \<Rightarrow> bool" where
  "in_class Space c = (c \<in> set white_space)"
| "in_class Digit c = (decimal_value c \<noteq> None)"
| "in_class UnitChar c = ((97 \<le> c \<and> c \<le> 122) \<or> (65 \<le> c \<and> c \<le> 90) \<or> c = 95)"

text \<open>
  \<open>Star c\<close> and \<open>Plus c\<close> are the greedy repetitions \<open>c*\<close> and \<open>c+\<close> of a character class,
  \<open>Group i r\<close> is the capturing group number \<open>i\<close>, \<open>Bol\<close> and \<open>Eol\<close> are \<open>^\<close> and \<open>$\<close>.
\<close>

datatype regex =
    Eps
  | Lit pystr
  | Star cclass
  | Plus cclass
  | Seq regex regex
  | Alt regex regex
  | Opt regex
  | Group nat regex
  | Bol
  | Eol

text \<open>
  A backtracking matcher as a list of successes. A state is the groups captured so far and
  the rest of the subject; \<open>rx_run s r st\<close> lists the states in which \<open>r\<close> can end when started
  in \<open>st\<close>, in the order in which Python's engine tries them (a greedy repetition tries the
  longest run first, an alternative its left branch first). \<open>s\<close> is the whole subject: \<open>^\<close>
  holds at its start only, \<open>$\<close> at its end or before a final newline.
\<close>

type_synonym mstate = "(nat \<Rightarrow> pystr option) \<times> pystr"

fun rep_splits :: "(nat \<Rightarrow> bool) \<Rightarrow> pystr \<Rightarrow> pystr list" where
  "rep_splits P [] = [[]]"
| "rep_splits P (c # cs) = (if P c then rep_splits P cs @ [c # cs] else [c # cs])"

fun rx_run :: "pystr \<Rightarrow> regex \<Rightarrow> mstate \<Rightarrow> mstate list" where
  "rx_run s Eps st = [st]"
| "rx_run s (Lit w) (g, r) =
     (if take (length w) r = w then [(g, drop (length w) r)] else [])"
| "rx_run s (Star c) (g, r) = map (Pair g) (rep_splits (in_class c) r)"
| "rx_run s (Plus c) (g, r) =
     (case r of [] \<Rightarrow> []
      | x # xs \<Rightarrow> if in_class c x then map (Pair g) (rep_splits (in_class c) xs) else [])"
| "rx_run s (Seq a b) st = concat (map (rx_run s b) (rx_run s a st))"
| "rx_run s (Alt a b) st = rx_run s a st @ rx_run s b st"
| "rx_run s (Opt a) st = rx_run s a st @ [st]"
| "rx_run s (Group i a) (g, r) =
     map (\<lambda>(g', r'). (g'(i \<mapsto> take (length r - length r') r), r')) (rx_run s a (g, r))"
| "rx_run s Bol (g, r) = (if length r = length s then [(g, r)] else [])"
| "rx_run s Eol (g, r) = (if r = [] \<or> r = [10] then [(g, r)] else [])"

text \<open>\<open>pattern.match(s)\<close>: the groups of the first success from the start of \<open>s\<close>, or \<open>None\<close>.\<close>

definition re_match :: "regex \<Rightarrow> pystr \<Rightarrow> (nat \<Rightarrow> pystr option) option" where
  "re_match r s =
     (case rx_run s r (Map.empty, s) of [] \<Rightarrow> None | (g, _) # _ \<Rightarrow> Some g)"

text \<open>\<open>m.group(i)\<close>: the text of the group, or \<open>None\<close> when the group took no part.\<close>

definition group :: "(nat \<Rightarrow> pystr option) \<Rightarrow> nat \<Rightarrow> pyval" where
  "group m i = (case m i of None \<Rightarrow> VNone | Some t \<Rightarrow> VStr t)"

subsection \<open>Expression helpers: the unit shorthand\<close>

definition cat :: "regex list \<Rightarrow> regex" where
  "cat rs = foldr Seq rs Eps"

definition CONV_RE :: regex where
  "CONV_RE =
     cat [Bol, Star Space,
          Group 1 (cat [Plus Digit, Opt (cat [Lit (py ''.''), Plus Digit])]),
          Star Space,
          Group 2 (Plus UnitChar),
          Star Space,
          Alt (Lit (py ''to'')) (Alt (Lit (py ''in'')) (Alt (Lit arrow) (Lit (py ''>'')))),
          Star Space,
          Group 3 (Plus UnitChar),
          Star Space, Eol]"

text \<open>
  \<open>float(text)\<close> for the texts group 1 of \<open>CONV_RE\<close> can hold: decimal digits, with an optional
  fraction. The result is the double nearest to the decimal number. Python's \<open>float\<close>
  accepts further forms (signs, exponents, blanks around the number); \<open>try_unit_conversion\<close>
  never passes one, and for them the model only says that a \<open>ValueError\<close> is raised.
\<close>

fun digits_value :: "pystr \<Rightarrow> nat option" where
  "digits_value [] = Some 0"
| "digits_value (c # cs) =
     (case (decimal_value c, digits_value cs) of
        (Some d, Some n) \<Rightarrow> Some (d * 10 ^ length cs + n)
      | _ \<Rightarrow> None)"

definition decimal_number :: "pystr \<Rightarrow> rat option" where
  "decimal_number t =
     (let ip = takeWhile (\<lambda>c. c \<noteq> 46) t; rest = dropWhile (\<lambda>c. c \<noteq> 46) t
      in if ip = [] \<or> rest = [46] then None
         else (case (digits_value ip, digits_value (tl rest)) of
                 (Some n, Some m) \<Rightarrow> Some (of_nat n + of_nat m / 10 ^ length (tl rest))
               | _ \<Rightarrow> None))"

fun py_float :: "pyval \<Rightarrow> pyerr + fl" where
  "py_float (VStr t) =
     (case decimal_number t of None \<Rightarrow> Inl (Raised ''ValueError'') | Some q \<Rightarrow> Inr (round64 q))"
| "py_float v = Inl TypeError"

definition try_unit_conversion :: "runtime \<Rightarrow> pystr \<Rightarrow> pyerr + pyval" where
  "try_unit_conversion rt expr =
     (case re_match CONV_RE expr of
        None \<Rightarrow> Inr VNone
      | Some m \<Rightarrow>
          (case py_float (group m 1) of
             Inl e \<Rightarrow> Inl e
           | Inr val \<Rightarrow> convert rt (VFloat val) (group m 2) (group m 3)))"


subsection \<open>\<open>_eval\<close> and \<open>safe_eval\<close>\<close>

text \<open>
  \<open>func(*args)\<close>: a \<open>math\<close> function is called with the arguments as they are; \<open>_convert\<close>
  takes three positional arguments; any other value is not callable.
\<close>

fun call_value :: "runtime \<Rightarrow> pyval \<Rightarrow> pyval list \<Rightarrow> pyerr + pyval" where
  "call_value rt (VFunc (MathFn name)) args =
     (case math_call rt name args of Inl e \<Rightarrow> Inl e | Inr x \<Rightarrow> Inr (VFloat x))"
| "call_value rt (VFunc ConvertFn) [val, from_u, to_u] = convert rt val from_u to_u"
| "call_value rt f args = Inl TypeError"

text \<open>
  \<open>_eval\<close> is written \<open>eval_node\<close>. The tests of the source are kept in their order. The
  branch for \<open>ast.Num\<close> is left out: from Python 3.8 on the parser builds \<open>ast.Constant\<close> nodes
  only, and \<open>isinstance(node, ast.Num)\<close> holds for no other node (the model is of Python 3.8
  to 3.13, where the class \<open>ast.Num\<close> exists). In
  \<open>OPS[type(node.op)](...)\<close> the look-up comes first, so a missing operator raises \<open>KeyError\<close>
  before an operand is evaluated; then the operands are evaluated from left to right.
  The keywords of a call are not looked at. \<open>eval_args\<close> is the list comprehension
  \<open>[_eval(a) for a in node.args]\<close>.
\<close>

fun eval_node :: "runtime \<Rightarrow> node \<Rightarrow> pyerr + pyval"
  and eval_args :: "runtime \<Rightarrow> node list \<Rightarrow> pyerr + pyval list" where
  "eval_node rt (Constant v) = Inr v"
| "eval_node rt (BinOp left oper right) =
     (case map_of OPS (BinCls oper) of
        None \<Rightarrow> Inl (KeyError (BinCls oper))
      | Some f \<Rightarrow>
          (case eval_node rt left of Inl e \<Rightarrow> Inl e
           | Inr a \<Rightarrow>
          (case eval_node rt right of Inl e \<Rightarrow> Inl e
           | Inr b \<Rightarrow> call_op rt f [a, b])))"
| "eval_node rt (UnaryOp oper operand) =
     (case map_of OPS (UnCls oper) of
        None \<Rightarrow> Inl (KeyError (UnCls oper))
      | Some f \<Rightarrow>
          (case eval_node rt operand of Inl e \<Rightarrow> Inl e
           | Inr a \<Rightarrow> call_op rt f [a]))"
| "eval_node rt (Name ident) =
     (case map_of MATH_FUNCS ident of
        Some v \<Rightarrow> Inr v
      | None \<Rightarrow> Inl (NameError ident))"
| "eval_node rt (Call func args keywords) =
     (case eval_node rt func of Inl e \<Rightarrow> Inl e
      | Inr f \<Rightarrow>
     (case eval_args rt args of Inl e \<Rightarrow> Inl e
      | Inr vs \<Rightarrow> call_value rt f vs))"
| "eval_node rt (Attribute v a) = Inl (ValueError_unsupported (Attribute v a))"
| "eval_node rt (Subscript v i) = Inl (ValueError_unsupported (Subscript v i))"
| "eval_node rt (Compare l ops cs) = Inl (ValueError_unsupported (Compare l ops cs))"
| "eval_node rt (BoolOp oper vs) = Inl (ValueError_unsupported (BoolOp oper vs))"
| "eval_node rt (OtherNode c ns) = Inl (ValueError_unsupported (OtherNode c ns))"
| "eval_args rt [] = Inr []"
| "eval_args rt (a # as) =
     (case eval_node rt a of Inl e \<Rightarrow> Inl e
      | Inr v \<Rightarrow> (case eval_args rt as of Inl e \<Rightarrow> Inl e | Inr vs \<Rightarrow> Inr (v # vs)))"

text \<open>
  \<open>safe_eval\<close>: the quick path returns what \<open>try_unit_conversion\<close> returns unless that is
  \<open>None\<close>; otherwise the expression is parsed and evaluated, and a \<open>float\<close> result that is a
  whole number is turned into an \<open>int\<close>.
\<close>

definition tidy :: "pyval \<Rightarrow> pyval" where
  "tidy result =
     (case result of
        VFloat x \<Rightarrow> if is_integer x then VInt (int_of_float x) else result
      | _ \<Rightarrow> result)"

definition safe_eval :: "runtime \<Rightarrow> pystr \<Rightarrow> pyerr + pyval" where
  "safe_eval rt expr =
     (case try_unit_conversion rt expr of
        Inl e \<Rightarrow> Inl e
      | Inr maybe \<Rightarrow>
          if maybe \<noteq> VNone then Inr maybe
          else (case ast_parse rt expr of
                  Inl e \<Rightarrow> Inl e
                | Inr tree \<Rightarrow>
                    (case eval_node rt tree of
                       Inl e \<Rightarrow> Inl e
                     | Inr result \<Rightarrow> Inr (tidy result))))"

subsection \<open>The service handler\<close>







section \<open>src/__init__.py\<close>

text \<open>
  The module at the root of the repository is the same service without the unit
  conversion: its table \<open>MATH\<close> has no \<open>convert\<close>, its \<open>safe_eval\<close> has no quick path, and the
  messages of its two exceptions differ. Its \<open>OPS\<close> is the table above. Its functions
  \<open>_eval\<close>, \<open>safe_eval\<close> and \<open>handle_calculate\<close> are written with the prefix \<open>root_\<close>.
\<close>

definition MATH :: "(pystr \<times> pyval) list" where
  "MATH =
     [(py ''pi'', VFloat (Fin (884279719003555 / 281474976710656))),
      (py ''e'', VFloat (Fin (6121026514868073 / 2251799813685248))),
      (py ''tau'', VFloat (Fin (884279719003555 / 140737488355328)))]
     @ map (\<lambda>name. (py name, VFunc (MathFn (py name))))
         [''sin'', ''cos'', ''tan'',
          ''asin'', ''acos'', ''atan'',
          ''sqrt'', ''log'', ''log10'', ''log2'', ''exp'']"

fun root_eval_node :: "runtime \<Rightarrow> node \<Rightarrow> pyerr + pyval"
  and root_eval_args :: "runtime \<Rightarrow> node list \<Rightarrow> pyerr + pyval list" where
  "root_eval_node rt (Constant v) = Inr v"
| "root_eval_node rt (BinOp left oper right) =
     (case map_of OPS (BinCls oper) of
        None \<Rightarrow> Inl (KeyError (BinCls oper))
      | Some f \<Rightarrow>
          (case root_eval_node rt left of Inl e \<Rightarrow> Inl e
           | Inr a \<Rightarrow>
          (case root_eval_node rt right of Inl e \<Rightarrow> Inl e
           | Inr b \<Rightarrow> call_op rt f [a, b])))"
| "root_eval_node rt (UnaryOp oper operand) =
     (case map_of OPS (UnCls oper) of
        None \<Rightarrow> Inl (KeyError (UnCls oper))
      | Some f \<Rightarrow>
          (case root_eval_node rt operand of Inl e \<Rightarrow> Inl e
           | Inr a \<Rightarrow> call_op rt f [a]))"
| "root_eval_node rt (Name ident) =
     (case map_of MATH ident of
        Some v \<Rightarrow> Inr v
      | None \<Rightarrow> Inl (NameError (py ''Use of name '' @ [39] @ ident @ [39] @ py '' is not allowed'')))"
| "root_eval_node rt (Call func args keywords) =
     (case root_eval_node rt func of Inl e \<Rightarrow> Inl e
      | Inr f \<Rightarrow>
     (case root_eval_args rt args of Inl e \<Rightarrow> Inl e
      | Inr vs \<Rightarrow> call_value rt f vs))"
| "root_eval_node rt (Attribute v a) = Inl (ValueError_unsupported_expression (Attribute v a))"
| "root_eval_node rt (Subscript v i) = Inl (ValueError_unsupported_expression (Subscript v i))"
| "root_eval_node rt (Compare l ops cs) = Inl (ValueError_unsupported_expression (Compare l ops cs))"
| "root_eval_node rt (BoolOp oper vs) = Inl (ValueError_unsupported_expression (BoolOp oper vs))"
| "root_eval_node rt (OtherNode c ns) = Inl (ValueError_unsupported_expression (OtherNode c ns))"
| "root_eval_args rt [] = Inr []"
| "root_eval_args rt (a # as) =
     (case root_eval_node rt a of Inl e \<Rightarrow> Inl e
      | Inr v \<Rightarrow> (case root_eval_args rt as of Inl e \<Rightarrow> Inl e | Inr vs \<Rightarrow> Inr (v # vs)))"



section \<open>Examples and notions of the claims\<close>

subsection \<open>A runtime for the examples\<close>

text \<open>
  The theorems below hold for every runtime. To run the model on the examples of the
  specification a runtime is needed as well: \<open>sample_runtime\<close> parses the example expressions
  into the trees that \<open>ast.parse\<close> builds for them (\<open>sample_parses\<close>, as \<open>ast.dump\<close> prints
  them) and reports a \<open>SyntaxError\<close> for any other text; its other entries are not used by the
  examples and raise.
\<close>

definition sample_parses :: "(pystr \<times> node) list" where
  "sample_parses =
     [(py ''10 / 4'', BinOp (Constant (VInt 10)) Div (Constant (VInt 4))),
      (py ''10 / 5'', BinOp (Constant (VInt 10)) Div (Constant (VInt 5))),
      (py ''1 / 0'', BinOp (Constant (VInt 1)) Div (Constant (VInt 0))),
      (py ''+1'', UnaryOp UAdd (Constant (VInt 1))),
      (py ''sin'', Name (py ''sin'')),
      (py ''foo'', Name (py ''foo'')),
      (py ''os.system('' @ [39] @ py ''x'' @ [39] @ py '')'',
         Call (Attribute (Name (py ''os'')) (py ''system'')) [Constant (VStr (py ''x''))] []),
      ([39] @ py ''abc'' @ [39], Constant (VStr (py ''abc''))),
      (py ''convert(2, '' @ [39] @ py ''l'' @ [39] @ py '', '' @ [39] @ py ''ml'' @ [39] @ py '')'',
         Call (Name (py ''convert''))
           [Constant (VInt 2), Constant (VStr (py ''l'')), Constant (VStr (py ''ml''))] [])]"

definition sample_runtime :: runtime where
  "sample_runtime =
     \<lparr> ast_parse = (\<lambda>s. case map_of sample_parses s of
                          None \<Rightarrow> Inl (Raised ''SyntaxError'') | Some tree \<Rightarrow> Inr tree),
       math_call = (\<lambda>name args. Inl (Raised ''NotImplementedError'')),
       float_pow = (\<lambda>x y. Inl (Raised ''NotImplementedError'')),
       other_op = (\<lambda>f args. Inl (Raised ''NotImplementedError'')),
       py_str = (\<lambda>v. Inl (Raised ''NotImplementedError'')),
       exc_str = (\<lambda>e. []) \<rparr>"


subsection \<open>Notions used in the claims\<close>

text \<open>
  \<open>accepted_class\<close>: the node classes \<open>_eval\<close> has a branch for. \<open>is_number\<close>: an \<open>int\<close> or a
  \<open>float\<close> (but no \<open>bool\<close>). \<open>is_zero\<close>: a number equal to zero. \<open>is_ArithmeticError\<close>: the
  subclasses of Python's \<open>ArithmeticError\<close> that occur here.
\<close>

fun accepted_class :: "node \<Rightarrow> bool" where
  "accepted_class (Constant v) = True"
| "accepted_class (BinOp l oper r) = True"
| "accepted_class (UnaryOp oper x) = True"
| "accepted_class (Name ident) = True"
| "accepted_class (Call f args kws) = True"
| "accepted_class n = False"

fun is_number :: "pyval \<Rightarrow> bool" where
  "is_number (VInt i) = True"
| "is_number (VFloat x) = True"
| "is_number v = False"



text \<open>
  \<open>numeric_expr\<close>: an expression tree built from \<open>int\<close> and \<open>float\<close> literals, the constants
  \<open>pi\<close>, \<open>e\<close>, \<open>tau\<close>, unary operators, binary operators other than \<open>**\<close>, and calls of a
  name, where the first argument of \<open>convert\<close> is such a tree again.
\<close>

fun numeric_expr :: "node \<Rightarrow> bool" where
  "numeric_expr (Constant v) = is_number v"
| "numeric_expr (BinOp l oper r) = (oper \<noteq> Power \<and> numeric_expr l \<and> numeric_expr r)"
| "numeric_expr (UnaryOp oper x) = numeric_expr x"
| "numeric_expr (Name ident) = (ident \<in> {py ''pi'', py ''e'', py ''tau''})"
| "numeric_expr (Call (Name name) [] kws) = True"
| "numeric_expr (Call (Name name) (val # rest) kws) = (name \<noteq> py ''convert'' \<or> numeric_expr val)"
| "numeric_expr n = False"

text \<open>
  \<open>unit_scale table u\<close> is the scale factor of the unit \<open>u\<close> in a unit table, as a \<open>float\<close>.
  A \<open>good_factor\<close> is a table entry by which every \<open>float\<close> can be multiplied and divided.
\<close>

fun factor_float :: "pyval \<Rightarrow> fl" where
  "factor_float (VInt i) = Fin (of_int i)"
| "factor_float (VFloat x) = x"
| "factor_float v = NaN"

definition unit_scale :: "(pystr \<times> pyval) list \<Rightarrow> pystr \<Rightarrow> fl" where
  "unit_scale table u = (case map_of table u of None \<Rightarrow> NaN | Some f \<Rightarrow> factor_float f)"

definition good_factor :: "runtime \<Rightarrow> pyval \<Rightarrow> bool" where
  "good_factor rt f =
     (factor_float f \<noteq> Fin 0 \<and>
      (\<forall>x. py_mul rt (VFloat x) f = Inr (VFloat (fmul x (factor_float f)))) \<and>
      (\<forall>x. py_truediv rt (VFloat x) f = Inr (VFloat (fdiv x (factor_float f)))))"

text \<open>
  The shape of a unit shorthand, in the words of the specification: white space, an
  unsigned decimal number (digits, with an optional fraction), white space, a unit token
  of letters and underscores, white space, a connector (\<open>to\<close>, \<open>in\<close>, the arrow or \<open>>\<close>),
  white space, a unit token, white space; any of the stretches of white space may be empty.
  \<open>shorthand_parts s n u1 u2\<close> says that \<open>s\<close> has this shape with the number \<open>n\<close> and the
  units \<open>u1\<close> and \<open>u2\<close>. Two units are \<open>convertible\<close> when, lowered, both are keys of the
  same unit table.
\<close>

definition blank :: "pystr \<Rightarrow> bool" where
  "blank w = list_all (in_class Space) w"

definition digits :: "pystr \<Rightarrow> bool" where
  "digits d = (d \<noteq> [] \<and> list_all (in_class Digit) d)"

definition unit_token :: "pystr \<Rightarrow> bool" where
  "unit_token u = (u \<noteq> [] \<and> list_all (in_class UnitChar) u)"

definition number_text :: "pystr \<Rightarrow> bool" where
  "number_text n = (digits n \<or> (\<exists>d e. n = d @ py ''.'' @ e \<and> digits d \<and> digits e))"

definition connectors :: "pystr list" where
  "connectors = [py ''to'', py ''in'', arrow, py ''>'']"

definition shorthand_parts :: "pystr \<Rightarrow> pystr \<Rightarrow> pystr \<Rightarrow> pystr \<Rightarrow> bool" where
  "shorthand_parts s n u1 u2 =
     (\<exists>w1 w2 w3 c w4 w5.
        s = w1 @ n @ w2 @ u1 @ w3 @ c @ w4 @ u2 @ w5 \<and>
        blank w1 \<and> number_text n \<and> blank w2 \<and> unit_token u1 \<and> blank w3 \<and>
        c \<in> set connectors \<and> blank w4 \<and> unit_token u2 \<and> blank w5)"

definition shorthand_shape :: "pystr \<Rightarrow> bool" where
  "shorthand_shape s = (\<exists>n u1 u2. shorthand_parts s n u1 u2)"

definition convertible :: "pystr \<Rightarrow> pystr \<Rightarrow> bool" where
  "convertible from_u to_u =
     (let fu = str_lower from_u; tu = str_lower to_u
      in (fu \<in> dom (map_of VOL_ML) \<and> tu \<in> dom (map_of VOL_ML)) \<or>
         (fu \<in> dom (map_of MASS_G) \<and> tu \<in> dom (map_of MASS_G)))"

text \<open>
  \<open>consumes s r L\<close>: the regular expression \<open>r\<close> captures nothing and matches exactly the
  prefixes that satisfy \<open>L\<close>.
\<close>

definition consumes :: "pystr \<Rightarrow> regex \<Rightarrow> (pystr \<Rightarrow> bool) \<Rightarrow> bool" where
  "consumes s r L =
     (\<forall>g x g' x'. (g', x') \<in> set (rx_run s r (g, x)) \<longleftrightarrow> g' = g \<and> (\<exists>pre. x = pre @ x' \<and> L pre))"

text \<open>
  A connector of odd case is a token that is no connector itself but is one when lowered:
  \<open>TO\<close>, \<open>To\<close>, \<open>tO\<close>, \<open>IN\<close>, \<open>In\<close> or \<open>iN\<close>.
\<close>

definition odd_case_connector :: "pystr \<Rightarrow> bool" where
  "odd_case_connector c = (c \<notin> set connectors \<and> str_lower c \<in> set connectors)"

text \<open>
  The words of a string are its maximal stretches without white space (\<open>words_acc\<close> reads
  the string with the word begun so far). A string spelled by tokens without white space,
  each followed by a possibly empty stretch of white space (\<open>spell\<close>), has the words
  \<open>merge\<close> computes: tokens that nothing separates form one word.
\<close>

fun words_acc :: "pystr \<Rightarrow> pystr \<Rightarrow> pystr list" where
  "words_acc acc [] = (if acc = [] then [] else [acc])"
| "words_acc acc (c # cs) =
     (if in_class Space c
      then (if acc = [] then words_acc [] cs else acc # words_acc [] cs)
      else words_acc (acc @ [c]) cs)"

definition solid :: "pystr \<Rightarrow> bool" where
  "solid p = (p \<noteq> [] \<and> list_all (\<lambda>c. \<not> in_class Space c) p)"

fun merge :: "(pystr \<times> pystr) list \<Rightarrow> pystr list" where
  "merge [] = []"
| "merge [(p, v)] = [p]"
| "merge ((p, v) # (q, u) # r) = (if v = [] then merge ((p @ q, u) # r) else p # merge ((q, u) # r))"

definition spell :: "(pystr \<times> pystr) list \<Rightarrow> pystr" where
  "spell ts = concat (map (\<lambda>(p, v). p @ v) ts)"

section \<open>Exact results of the rounding\<close>

text \<open>
  A number with a significand below \<open>2^53\<close> and an exponent in range is a double, and
  \<open>round64\<close> returns it unchanged.
\<close>

lemma round_half_even_of_int: "round_half_even (of_int z) = z"
  by (simp add: round_half_even_def)

lemma ilog2_le:
  assumes "0 < q"
  shows "2 powi (ilog2 q) \<le> q"
proof -
  obtain a b where ab: "quotient_of q = (a, b)" by (cases "quotient_of q")
  have b: "0 < b" using ab by (rule quotient_of_denom_pos)
  have q: "q = of_int a / of_int b" using ab by (rule quotient_of_div)
  have a: "0 < a" using assms b q by (simp add: zero_less_divide_iff)
  define la where "la = floorlog 2 (nat a)"
  define lb where "lb = floorlog 2 (nat b)"
  have la: "2 ^ (la - 1) \<le> nat a" using floorlog_bounds[of "nat a" 2] a by (simp add: la_def)
  have lb: "nat b < 2 ^ lb" using floorlog_bounds[of "nat b" 2] b by (simp add: lb_def)
  have la0: "0 < la" using a by (simp add: la_def floorlog_def)
  have eq: "int la - int lb - 1 = int (la - 1) - int lb" using la0 by simp
  have "(2::rat) powi (int (la - 1) - int lb) = 2 powi int (la - 1) / 2 powi int lb"
    by (rule power_int_diff) simp
  then have "(2::rat) powi (int la - int lb - 1) = 2 ^ (la - 1) / 2 ^ lb"
    by (simp only: eq power_int_of_nat)
  also have "\<dots> \<le> of_int a / of_int b"
  proof (rule frac_le)
    have "(of_nat (2 ^ (la - 1)) :: rat) \<le> of_nat (nat a)"
      using la by (simp only: of_nat_le_iff)
    then show "(2::rat) ^ (la - 1) \<le> of_int a"
      using a by simp
    have "(of_nat (nat b) :: rat) \<le> of_nat (2 ^ lb)"
      using lb by (simp only: of_nat_le_iff less_imp_le)
    then show "of_int b \<le> (2::rat) ^ lb"
      using b by simp
    show "(0::rat) \<le> of_int a" using a by simp
    show "(0::rat) < of_int b" using b by simp
  qed
  finally have low: "2 powi (int la - int lb - 1) \<le> q" using q by simp
  show ?thesis
    using low by (simp add: ilog2_def ab Let_def la_def lb_def)
qed

lemma round64_pos_exact:
  assumes m: "0 < m" "m < 2 ^ 53" and e: "- 1074 \<le> e"
  shows "round64_pos (of_int m * 2 powi e) = of_int m * 2 powi e"
proof -
  define q :: rat where "q = of_int m * 2 powi e"
  have qpos: "0 < q" using m by (simp add: q_def zero_less_mult_iff)
  have "(of_int m :: rat) < of_int (2 ^ 53)" using m(2) by (simp only: of_int_less_iff)
  then have m53: "(of_int m :: rat) < 2 ^ 53" by (simp only: of_int_power of_int_numeral)
  have "0 < (2::rat) powi e" by (simp add: zero_less_power_int)
  with m53 have "q < 2 ^ 53 * 2 powi e"
    unfolding q_def by (rule mult_strict_right_mono)
  also have "\<dots> = 2 powi (e + 53)" by (simp add: power_int_add)
  finally have "2 powi (ilog2 q) < (2::rat) powi (e + 53)" using ilog2_le[OF qpos] by simp
  then have "ilog2 q < e + 53"
    by (metis not_le one_less_numeral_iff power_int_increasing semiring_norm(76) less_imp_le leD)
  define p where "p = max (ilog2 q - 52) (- 1074)"
  have pe: "p \<le> e" using \<open>ilog2 q < e + 53\<close> e by (simp add: p_def)
  have "q / 2 powi p = of_int m * 2 powi (e - p)"
    by (simp add: q_def power_int_diff)
  also have "\<dots> = of_int (m * 2 ^ nat (e - p))"
    using pe by (simp add: power_int_nonneg_exp)
  finally have "round_half_even (q / 2 powi p) = m * 2 ^ nat (e - p)"
    by (simp only: round_half_even_of_int)
  then have "round64_pos q = of_int (m * 2 ^ nat (e - p)) * 2 powi p"
    by (simp add: round64_pos_def p_def Let_def)
  also have "\<dots> = of_int m * (2 powi (e - p) * 2 powi p)"
    using pe by (simp add: power_int_nonneg_exp)
  also have "\<dots> = q" by (simp add: q_def flip: power_int_add)
  finally show ?thesis unfolding q_def .
qed

lemma round64_exact:
  assumes "\<bar>m\<bar> < 2 ^ 53" "- 1074 \<le> e" "e \<le> 971"
  shows "round64 (of_int m * 2 powi e) = Fin (of_int m * 2 powi e)"
proof -
  have bound: "of_int k * 2 powi e < (2::rat) ^ 1024" if "0 < k" "k < 2 ^ 53" for k :: int
  proof -
    have "(of_int k :: rat) < of_int (2 ^ 53)" using that(2) by (simp only: of_int_less_iff)
    then have k53: "(of_int k :: rat) < 2 ^ 53" by (simp only: of_int_power of_int_numeral)
    have "0 < (2::rat) powi e" by (simp add: zero_less_power_int)
    with k53 have "of_int k * 2 powi e < (2::rat) ^ 53 * 2 powi e"
      by (rule mult_strict_right_mono)
    also have "\<dots> = 2 powi (e + 53)" by (simp add: power_int_add)
    also have "\<dots> \<le> 2 powi 1024" using assms(3) by (intro power_int_increasing) auto
    finally show ?thesis by simp
  qed
  consider "m = 0" | "0 < m" | "m < 0" by linarith
  then show ?thesis
  proof cases
    case 1 then show ?thesis by (simp add: round64_def)
  next
    case 2
    then have m: "m < 2 ^ 53" using assms(1) by simp
    have pos: "0 < (of_int m :: rat) * 2 powi e" using 2 by (simp add: zero_less_mult_iff zero_less_power_int)
    show ?thesis
      using pos bound[OF 2 m] round64_pos_exact[OF 2 m assms(2)]
      by (simp add: round64_def Let_def del: power_int_numeral)
  next
    case 3
    then have m: "0 < - m" "- m < 2 ^ 53" using assms(1) by simp_all
    have neg: "(of_int m :: rat) * 2 powi e < 0" using 3 by (simp add: mult_less_0_iff zero_less_power_int)
    have e: "- (of_int m * 2 powi e) = (of_int (- m) :: rat) * 2 powi e" by simp
    show ?thesis
      using neg bound[OF m] round64_pos_exact[OF m assms(2)]
      by (simp add: round64_def Let_def e del: of_int_minus)
  qed
qed

lemma round64_of_int: "\<bar>n\<bar> < 2 ^ 53 \<Longrightarrow> round64 (of_int n) = Fin (of_int n)"
  using round64_exact[of n 0] by simp

lemma round64_numeral [simp]:
  "numeral k < (9007199254740992::int) \<Longrightarrow> round64 (numeral k) = Fin (numeral k)"
  using round64_of_int[of "numeral k"] by simp

lemma round64_0 [simp]: "round64 0 = Fin 0" by (simp add: round64_def)
lemma round64_1 [simp]: "round64 1 = Fin 1" using round64_of_int[of 1] by simp

lemma round64_half: "\<bar>n\<bar> < 2 ^ 53 \<Longrightarrow> round64 (of_int n / 2) = Fin (of_int n / 2)"
  using round64_exact[of n "-1"] by (simp add: power_int_minus field_simps)

lemma ilog2_less:
  assumes "0 < q"
  shows "q < 2 powi (ilog2 q + 1)"
proof -
  obtain a b where ab: "quotient_of q = (a, b)" by (cases "quotient_of q")
  have b: "0 < b" using ab by (rule quotient_of_denom_pos)
  have q: "q = of_int a / of_int b" using ab by (rule quotient_of_div)
  have a: "0 < a" using assms b q by (simp add: zero_less_divide_iff)
  define la where "la = floorlog 2 (nat a)"
  define lb where "lb = floorlog 2 (nat b)"
  have la: "nat a < 2 ^ la" using floorlog_bounds[of "nat a" 2] a by (simp add: la_def)
  have lb: "2 ^ (lb - 1) \<le> nat b" using floorlog_bounds[of "nat b" 2] b by (simp add: lb_def)
  have lb0: "0 < lb" using b by (simp add: lb_def floorlog_def)
  show ?thesis
  proof (cases "2 powi (int la - int lb) \<le> q")
    case False
    then show ?thesis by (simp add: ilog2_def ab Let_def la_def lb_def)
  next
    case True
    have eq: "int la - int lb + 1 = int la - int (lb - 1)" using lb0 by simp
    have "(of_nat (nat a) :: rat) < of_nat (2 ^ la)" using la by (simp only: of_nat_less_iff)
    then have A: "(of_int a :: rat) < 2 ^ la" using a by simp
    have "(of_nat (2 ^ (lb - 1)) :: rat) \<le> of_nat (nat b)" using lb by (simp only: of_nat_le_iff)
    then have B: "(2::rat) ^ (lb - 1) \<le> of_int b" using b by simp
    have "of_int a / of_int b < (2::rat) ^ la / 2 ^ (lb - 1)"
    proof (rule frac_less)
      show "(0::rat) \<le> of_int a" using a by simp
      show "(of_int a :: rat) < 2 ^ la" by (rule A)
      show "(0::rat) < 2 ^ (lb - 1)" by simp
      show "(2::rat) ^ (lb - 1) \<le> of_int b" by (rule B)
    qed
    also have "\<dots> = 2 powi int la / 2 powi int (lb - 1)" by (simp only: power_int_of_nat)
    also have "\<dots> = 2 powi (int la - int (lb - 1))" by (rule power_int_diff[symmetric]) simp
    finally have "q < 2 powi (int la - int (lb - 1))" using q by simp
    then have "q < 2 powi (int la - int lb + 1)" by (simp only: eq)
    then show ?thesis using True by (simp add: ilog2_def ab Let_def la_def lb_def)
  qed
qed

lemma ilog2_nonneg:
  assumes "1 \<le> q"
  shows "0 \<le> ilog2 q"
proof (rule ccontr)
  assume "\<not> 0 \<le> ilog2 q"
  then have "ilog2 q + 1 \<le> 0" by simp
  then have "(2::rat) powi (ilog2 q + 1) \<le> 2 powi 0" by (intro power_int_increasing) auto
  moreover have "q < 2 powi (ilog2 q + 1)" using assms by (intro ilog2_less) simp
  ultimately show False using assms by simp
qed

lemma round_half_even_ge: "\<lfloor>y\<rfloor> \<le> round_half_even y"
  by (simp add: round_half_even_def Let_def)

lemma round64_pos_positive:
  assumes "1 \<le> q"
  shows "0 < round64_pos q"
proof -
  have q0: "0 < q" using assms by simp
  define p where "p = max (ilog2 q - 52) (- 1074)"
  have "p \<le> ilog2 q" using ilog2_nonneg[OF assms] by (simp add: p_def)
  then have "(2::rat) powi p \<le> 2 powi (ilog2 q)" by (intro power_int_increasing) auto
  also have "\<dots> \<le> q" by (rule ilog2_le[OF q0])
  finally have "1 \<le> q / 2 powi p" by (simp add: le_divide_eq zero_less_power_int)
  then have "1 \<le> \<lfloor>q / 2 powi p\<rfloor>" by (simp add: le_floor_iff)
  then have "0 < round_half_even (q / 2 powi p)" using round_half_even_ge[of "q / 2 powi p"] by linarith
  then have "0 < (of_int (round_half_even (q / 2 powi p)) :: rat) * 2 powi p"
    by (simp add: zero_less_mult_iff zero_less_power_int)
  then show ?thesis by (simp add: round64_pos_def p_def Let_def)
qed

lemma round64_nonzero: "1 \<le> q \<Longrightarrow> round64 q \<noteq> Fin 0"
  using round64_pos_positive[of q] by (auto simp: round64_def Let_def)

lemma floor_rat_numeral_div [simp]:
  "\<lfloor>(numeral a :: rat) / numeral b\<rfloor> = numeral a div numeral b"
  using floor_divide_of_int_eq[of "numeral a" "numeral b", where 'a = rat] by simp

lemma round64_5_2: "round64 (5 / 2) = Fin (5 / 2)"
  using round64_exact[of 5 "- 1"] by simp

section \<open>Running the model\<close>

lemmas regex_defs =
  re_match_def CONV_RE_def cat_def py_def arrow_def decimal_value_def zero_digits_def
  white_space_def group_def decimal_number_def

lemmas convert_defs =
  convert_def str_lower_def lower_cp_def VOL_ML_def MASS_G_def mul_div_def py_mul_def
  py_truediv_def float_op_def finite_or_overflow_def

lemmas sample_defs = sample_runtime_def sample_parses_def MATH_FUNCS_def OPS_def

section \<open>Properties of the arithmetic and of the unit tables\<close>

lemma good_factor_int: "numeral k < (9007199254740992::int) \<Longrightarrow> good_factor rt (VInt (numeral k))"
  by (simp add: good_factor_def py_mul_def py_truediv_def float_op_def finite_or_overflow_def)

lemma good_factor_one: "good_factor rt (VInt 1)"
  by (simp add: good_factor_def py_mul_def py_truediv_def float_op_def finite_or_overflow_def)

lemma good_factor_lit: "1 \<le> q \<Longrightarrow> good_factor rt (float_lit q)"
  using round64_nonzero[of q]
  by (simp add: good_factor_def float_lit_def py_mul_def py_truediv_def float_op_def)

lemma VOL_ML_good: "map_of VOL_ML u = Some f \<Longrightarrow> good_factor rt f"
  by (auto simp: VOL_ML_def good_factor_int good_factor_one good_factor_lit split: if_splits)

lemma MASS_G_good: "map_of MASS_G u = Some f \<Longrightarrow> good_factor rt f"
  by (auto simp: MASS_G_def good_factor_int good_factor_one good_factor_lit split: if_splits)

lemma mul_div_good:
  "good_factor rt f \<Longrightarrow> good_factor rt t \<Longrightarrow>
   mul_div rt (VFloat x) f t = Inr (VFloat (fdiv (fmul x (factor_float f)) (factor_float t)))"
  by (simp add: mul_div_def good_factor_def)


lemma is_number_as_num: "is_number v \<Longrightarrow> \<exists>n. as_num v = Some n"
  by (cases v) simp_all

lemma float_op_number:
  assumes "\<And>u v w. f u v = Inr w \<Longrightarrow> is_number w" and "float_op f a b = Inr w"
  shows "is_number w"
  using assms by (auto simp: float_op_def split: sum.splits)

lemma py_add_number: "is_number a \<Longrightarrow> is_number b \<Longrightarrow> py_add rt a b = Inr v \<Longrightarrow> is_number v"
  by (cases a; cases b) (auto simp: py_add_def float_op_def split: sum.splits)

lemma py_sub_number: "is_number a \<Longrightarrow> is_number b \<Longrightarrow> py_sub rt a b = Inr v \<Longrightarrow> is_number v"
  by (cases a; cases b) (auto simp: py_sub_def float_op_def split: sum.splits)

lemma py_mul_number: "is_number a \<Longrightarrow> is_number b \<Longrightarrow> py_mul rt a b = Inr v \<Longrightarrow> is_number v"
  by (cases a; cases b) (auto simp: py_mul_def float_op_def split: sum.splits)

lemma py_truediv_number:
  "is_number a \<Longrightarrow> is_number b \<Longrightarrow> py_truediv rt a b = Inr v \<Longrightarrow> \<exists>x. v = VFloat x"
  by (cases a; cases b) (auto simp: py_truediv_def float_op_def split: sum.splits if_splits)

lemma py_mod_number: "is_number a \<Longrightarrow> is_number b \<Longrightarrow> py_mod rt a b = Inr v \<Longrightarrow> is_number v"
  by (cases a; cases b) (auto simp: py_mod_def float_op_def split: sum.splits if_splits)

lemma py_neg_number: "is_number a \<Longrightarrow> py_neg rt a = Inr v \<Longrightarrow> is_number v"
  by (cases a) (auto simp: py_neg_def)

lemma table_number:
  "map_of VOL_ML u = Some f \<Longrightarrow> is_number f" "map_of MASS_G u = Some f \<Longrightarrow> is_number f"
  by (auto simp: VOL_ML_def MASS_G_def float_lit_def split: if_splits)

lemma dict_number:
  "dict_get VOL_ML k = Some f \<Longrightarrow> is_number f" "dict_get MASS_G k = Some f \<Longrightarrow> is_number f"
  by (cases k; simp add: table_number)+

lemma call_convert_args:
  "call_value rt (VFunc ConvertFn) vs = Inr v \<Longrightarrow> \<exists>a b c. vs = [a, b, c] \<and> convert rt a b c = Inr v"
  by (erule call_value.elims) auto

lemma mul_div_number:
  assumes "is_number a" "is_number f" "is_number t" "mul_div rt a f t = Inr v"
  shows "is_number v"
proof -
  obtain p where p: "py_mul rt a f = Inr p" and v: "py_truediv rt p t = Inr v"
    using assms(4) by (auto simp: mul_div_def split: sum.splits)
  have "is_number p" using py_mul_number[OF assms(1,2) p] .
  then show ?thesis using py_truediv_number[OF _ assms(3) v] by auto
qed

lemma convert_number:
  assumes "is_number a" "convert rt a from_u to_u = Inr v"
  shows "is_number v"
  using assms
  by (auto simp: convert_def split: sum.splits option.splits pyval.splits
      elim!: mul_div_number[rotated 3] intro: dict_number)

lemma call_op_number:
  assumes "map_of OPS (BinCls oper) = Some f" "oper \<noteq> Power" "is_number a" "is_number b"
    "call_op rt f [a, b] = Inr v"
  shows "is_number v"
  using assms
  by (cases oper)
     (auto simp: OPS_def dest: py_add_number py_sub_number py_mul_number py_truediv_number py_mod_number)

lemma call_neg_number:
  assumes "map_of OPS (UnCls oper) = Some f" "is_number a" "call_op rt f [a] = Inr v"
  shows "is_number v"
  using assms by (cases oper) (auto simp: OPS_def dest: py_neg_number)

lemma eval_numeric: "numeric_expr t \<Longrightarrow> eval_node rt t = Inr v \<Longrightarrow> is_number v"
proof (induction t arbitrary: v)
  case (Constant x)
  then show ?case by simp
next
  case (BinOp l oper r)
  then show ?case
    by (auto split: option.splits sum.splits elim: call_op_number[rotated 4])
next
  case (UnaryOp oper x)
  then show ?case
    by (auto split: option.splits sum.splits elim: call_neg_number[rotated 2])
next
  case (Name ident)
  then show ?case by (auto simp: MATH_FUNCS_def py_def)
next
  case (Call f args kws)
  from Call.prems(1) obtain name where f: "f = Name name" by (cases f) auto
  from Call.prems(2) f obtain fv vs where
    fv: "map_of MATH_FUNCS name = Some fv" and vs: "eval_args rt args = Inr vs"
    and cv: "call_value rt fv vs = Inr v"
    by (auto split: option.splits sum.splits)
  show ?case
  proof (cases "name = py ''convert''")
    case False
    then have "(\<exists>x. fv = VFloat x) \<or> (\<exists>n. fv = VFunc (MathFn n))"
      using fv by (auto simp: MATH_FUNCS_def py_def split: if_splits)
    then show ?thesis using cv by (auto split: sum.splits)
  next
    case True
    then have fvc: "fv = VFunc ConvertFn" using fv by (simp add: MATH_FUNCS_def py_def)
    then obtain a b c where abc: "vs = [a, b, c]" and conv: "convert rt a b c = Inr v"
      using cv call_convert_args by blast
    from abc vs obtain val rest where args: "args = val # rest" and a: "eval_node rt val = Inr a"
      by (cases args) (auto split: sum.splits)
    have "numeric_expr val" using Call.prems(1) f True args by simp
    then have "is_number a" using Call.IH(2)[of val a] a args by simp
    then show ?thesis using conv by (rule convert_number)
  qed
qed simp_all

lemma try_unit_conversion_number:
  "try_unit_conversion rt expr = Inr v \<Longrightarrow> v = VNone \<or> is_number v"
  by (auto simp: try_unit_conversion_def split: option.splits sum.splits
      dest: convert_number[rotated])

lemma tidy_number: "is_number v \<Longrightarrow> is_number (tidy v)"
  by (cases v) (auto simp: tidy_def)



section \<open>What \<open>CONV_RE\<close> matches\<close>

lemma rep_splits_set:
  "set (rep_splits P x) = {x'. \<exists>pre. x = pre @ x' \<and> list_all P pre}"
proof (induction x)
  case Nil
  then show ?case by auto
next
  case (Cons c cs)
  show ?case
  proof (cases "P c")
    case True
    have "{x'. \<exists>pre. c # cs = pre @ x' \<and> list_all P pre}
        = {x'. \<exists>pre. cs = pre @ x' \<and> list_all P pre} \<union> {c # cs}"
      using True by (auto simp: Cons_eq_append_conv)
    then show ?thesis using True Cons.IH by simp
  next
    case False
    have "{x'. \<exists>pre. c # cs = pre @ x' \<and> list_all P pre} = {c # cs}"
      using False by (auto simp: Cons_eq_append_conv)
    then show ?thesis using False by simp
  qed
qed

lemma mem_star:
  "(g', x') \<in> set (rx_run s (Star c) (g, x)) \<longleftrightarrow>
     g' = g \<and> (\<exists>pre. x = pre @ x' \<and> list_all (in_class c) pre)"
  by (auto simp: rep_splits_set)

lemma mem_plus:
  "(g', x') \<in> set (rx_run s (Plus c) (g, x)) \<longleftrightarrow>
     g' = g \<and> (\<exists>pre. x = pre @ x' \<and> pre \<noteq> [] \<and> list_all (in_class c) pre)"
proof (cases x)
  case Nil
  then show ?thesis by auto
next
  case (Cons a as)
  show ?thesis
  proof (cases "in_class c a")
    case False
    then show ?thesis using Cons by (auto simp: Cons_eq_append_conv)
  next
    case True
    have "(\<exists>pre. as = pre @ x' \<and> list_all (in_class c) pre) \<longleftrightarrow>
          (\<exists>pre. a # as = pre @ x' \<and> pre \<noteq> [] \<and> list_all (in_class c) pre)"
      using True by (auto simp: Cons_eq_append_conv)
    then show ?thesis using Cons True by (auto simp: rep_splits_set)
  qed
qed

lemma mem_lit:
  "(g', x') \<in> set (rx_run s (Lit w) (g, x)) \<longleftrightarrow> g' = g \<and> x = w @ x'"
proof
  assume "(g', x') \<in> set (rx_run s (Lit w) (g, x))"
  then have "take (length w) x = w" "x' = drop (length w) x" "g' = g"
    by (auto split: if_splits)
  then show "g' = g \<and> x = w @ x'"
    using append_take_drop_id[of "length w" x] by simp
next
  assume "g' = g \<and> x = w @ x'"
  then show "(g', x') \<in> set (rx_run s (Lit w) (g, x))" by simp
qed

lemma mem_seq:
  "st'' \<in> set (rx_run s (Seq a b) st) \<longleftrightarrow>
     (\<exists>st'. st' \<in> set (rx_run s a st) \<and> st'' \<in> set (rx_run s b st'))"
  by auto

lemma mem_alt:
  "st' \<in> set (rx_run s (Alt a b) st) \<longleftrightarrow> st' \<in> set (rx_run s a st) \<or> st' \<in> set (rx_run s b st)"
  by auto

lemma mem_opt:
  "st' \<in> set (rx_run s (Opt a) st) \<longleftrightarrow> st' \<in> set (rx_run s a st) \<or> st' = st"
  by auto

lemma rx_run_suffix:
  "(g', x') \<in> set (rx_run s r (g, x)) \<Longrightarrow> \<exists>pre. x = pre @ x'"
proof (induction r arbitrary: g x g' x')
  case (Lit w)
  then show ?case unfolding mem_lit by blast
next
  case (Star c)
  then show ?case unfolding mem_star by blast
next
  case (Plus c)
  then show ?case unfolding mem_plus by blast
next
  case (Seq a b)
  from Seq.prems obtain g1 x1 where 1: "(g1, x1) \<in> set (rx_run s a (g, x))"
    and 2: "(g', x') \<in> set (rx_run s b (g1, x1))"
    unfolding mem_seq by auto
  from Seq.IH(1)[OF 1] Seq.IH(2)[OF 2] show ?case by auto
next
  case (Alt a b)
  then show ?case unfolding mem_alt by blast
next
  case (Opt a)
  then show ?case unfolding mem_opt by blast
next
  case (Group i a)
  then show ?case by auto
qed (auto split: if_splits)

lemma mem_group:
  "(g'', x') \<in> set (rx_run s (Group i a) (g, x)) \<longleftrightarrow>
     (\<exists>g' pre. (g', x') \<in> set (rx_run s a (g, x)) \<and> x = pre @ x' \<and> g'' = g'(i \<mapsto> pre))"
proof
  assume "(g'', x') \<in> set (rx_run s (Group i a) (g, x))"
  then obtain g' where 1: "(g', x') \<in> set (rx_run s a (g, x))"
    and 2: "g'' = g'(i \<mapsto> take (length x - length x') x)"
    by auto
  from rx_run_suffix[OF 1] obtain pre where "x = pre @ x'" by auto
  then show "\<exists>g' pre. (g', x') \<in> set (rx_run s a (g, x)) \<and> x = pre @ x' \<and> g'' = g'(i \<mapsto> pre)"
    using 1 2 by auto
next
  assume "\<exists>g' pre. (g', x') \<in> set (rx_run s a (g, x)) \<and> x = pre @ x' \<and> g'' = g'(i \<mapsto> pre)"
  then show "(g'', x') \<in> set (rx_run s (Group i a) (g, x))"
    by (force simp: image_iff)
qed

lemma consumes_eps: "consumes s Eps (\<lambda>p. p = [])"
  by (auto simp: consumes_def)

lemma consumes_lit: "consumes s (Lit w) (\<lambda>p. p = w)"
  unfolding consumes_def mem_lit by auto

lemma consumes_star: "consumes s (Star c) (list_all (in_class c))"
  unfolding consumes_def mem_star by auto

lemma consumes_plus: "consumes s (Plus c) (\<lambda>p. p \<noteq> [] \<and> list_all (in_class c) p)"
  unfolding consumes_def mem_plus by auto

lemma consumes_seq:
  assumes "consumes s a La" "consumes s b Lb"
  shows "consumes s (Seq a b) (\<lambda>p. \<exists>p1 p2. p = p1 @ p2 \<and> La p1 \<and> Lb p2)"
  unfolding consumes_def mem_seq
  using assms unfolding consumes_def
  by (simp del: rx_run.simps) (metis append.assoc)

lemma consumes_alt:
  assumes "consumes s a La" "consumes s b Lb"
  shows "consumes s (Alt a b) (\<lambda>p. La p \<or> Lb p)"
  unfolding consumes_def mem_alt
  using assms unfolding consumes_def by (simp del: rx_run.simps) blast

lemma consumes_opt:
  assumes "consumes s a La"
  shows "consumes s (Opt a) (\<lambda>p. La p \<or> p = [])"
  unfolding consumes_def mem_opt
  using assms unfolding consumes_def by (simp del: rx_run.simps) blast

lemma consumes_cong: "consumes s r L \<Longrightarrow> (\<And>p. L p = L' p) \<Longrightarrow> consumes s r L'"
  by (simp add: consumes_def)

lemma mem_group_consumes:
  assumes "consumes s a L"
  shows "(g'', x') \<in> set (rx_run s (Group i a) (g, x)) \<longleftrightarrow>
           (\<exists>pre. x = pre @ x' \<and> L pre \<and> g'' = g(i \<mapsto> pre))"
  unfolding mem_group using assms unfolding consumes_def
  by (simp del: rx_run.simps) blast

lemma cat_simps: "cat [] = Eps" "cat (r # rs) = Seq r (cat rs)"
  by (simp_all add: cat_def)

lemma consumes_number:
  "consumes s (cat [Plus Digit, Opt (cat [Lit (py ''.''), Plus Digit])]) number_text"
proof -
  have "consumes s (cat [Plus Digit, Opt (cat [Lit (py ''.''), Plus Digit])])
     (\<lambda>p. \<exists>p1 p2. p = p1 @ p2 \<and> (p1 \<noteq> [] \<and> list_all (in_class Digit) p1) \<and>
        (\<exists>q1 q2. p2 = q1 @ q2 \<and>
           ((\<exists>r1 r2. q1 = r1 @ r2 \<and> r1 = py ''.'' \<and>
              (\<exists>t1 t2. r2 = t1 @ t2 \<and> (t1 \<noteq> [] \<and> list_all (in_class Digit) t1) \<and> t2 = []) ) \<or> q1 = [])
           \<and> q2 = []))"
    unfolding cat_simps
    by (intro consumes_seq consumes_opt consumes_plus consumes_lit consumes_eps)
  then show ?thesis
    by (rule consumes_cong) (auto simp: number_text_def digits_def)
qed

lemma consumes_connector:
  "consumes s (Alt (Lit (py ''to'')) (Alt (Lit (py ''in'')) (Alt (Lit arrow) (Lit (py ''>'')))))
     (\<lambda>p. p \<in> set connectors)"
proof -
  have "consumes s (Alt (Lit (py ''to'')) (Alt (Lit (py ''in'')) (Alt (Lit arrow) (Lit (py ''>'')))))
     (\<lambda>p. p = py ''to'' \<or> p = py ''in'' \<or> p = arrow \<or> p = py ''>'')"
    by (intro consumes_alt consumes_lit)
  then show ?thesis
    by (rule consumes_cong) (auto simp: connectors_def)
qed

lemma mem_consumes:
  "consumes s r L \<Longrightarrow>
   (g', x') \<in> set (rx_run s r (g, x)) \<longleftrightarrow> g' = g \<and> (\<exists>pre. x = pre @ x' \<and> L pre)"
  by (simp add: consumes_def)

lemma mem_bol: "(g', x') \<in> set (rx_run s Bol (g, x)) \<longleftrightarrow> g' = g \<and> x' = x \<and> length x = length s"
  by auto

lemma mem_eol: "(g', x') \<in> set (rx_run s Eol (g, x)) \<longleftrightarrow> g' = g \<and> x' = x \<and> (x = [] \<or> x = [10])"
  by auto

lemma mem_eps: "(g', x') \<in> set (rx_run s Eps (g, x)) \<longleftrightarrow> g' = g \<and> x' = x"
  by auto

lemma seq_intro:
  "(g1, x1) \<in> set (rx_run s a (g, x)) \<Longrightarrow> st \<in> set (rx_run s (cat rs) (g1, x1)) \<Longrightarrow>
   st \<in> set (rx_run s (cat (a # rs)) (g, x))"
  unfolding cat_simps mem_seq by blast

lemma star_intro: "blank w \<Longrightarrow> (g, x) \<in> set (rx_run s (Star Space) (g, w @ x))"
  unfolding mem_star blank_def by blast

lemma unit_intro:
  "unit_token u \<Longrightarrow> (g(i \<mapsto> u), x) \<in> set (rx_run s (Group i (Plus UnitChar)) (g, u @ x))"
  unfolding mem_group_consumes[OF consumes_plus] unit_token_def by blast

lemma number_intro:
  "number_text n \<Longrightarrow>
   (g(i \<mapsto> n), x) \<in> set (rx_run s (Group i (cat [Plus Digit, Opt (cat [Lit (py ''.''), Plus Digit])])) (g, n @ x))"
  unfolding mem_group_consumes[OF consumes_number] by blast

lemma connector_intro:
  "c \<in> set connectors \<Longrightarrow>
   (g, x) \<in> set (rx_run s (Alt (Lit (py ''to'')) (Alt (Lit (py ''in'')) (Alt (Lit arrow) (Lit (py ''>''))))) (g, c @ x))"
  unfolding mem_consumes[OF consumes_connector] by blast

lemma conv_re_complete:
  assumes s: "s = w1 @ n @ w2 @ u1 @ w3 @ c @ w4 @ u2 @ w5 @ x'"
    and x': "x' = [] \<or> x' = [10]"
    and parts: "blank w1" "number_text n" "blank w2" "unit_token u1" "blank w3"
      "c \<in> set connectors" "blank w4" "unit_token u2" "blank w5"
  shows "([1 \<mapsto> n, 2 \<mapsto> u1, 3 \<mapsto> u2], x') \<in> set (rx_run s CONV_RE (Map.empty, s))"
proof -
  let ?G1 = "[1 \<mapsto> n]"
  let ?G2 = "[1 \<mapsto> n, 2 \<mapsto> u1]"
  let ?G = "[1 \<mapsto> n, 2 \<mapsto> u1, 3 \<mapsto> u2]"
  have r11: "(?G, x') \<in> set (rx_run s (cat [Eol]) (?G, x'))"
    using x' unfolding cat_simps mem_seq mem_eol mem_eps by auto
  have r10: "(?G, x') \<in> set (rx_run s (cat [Star Space, Eol]) (?G, w5 @ x'))"
    by (rule seq_intro[OF star_intro[OF parts(9)] r11])
  have r9: "(?G, x') \<in> set (rx_run s (cat [Group 3 (Plus UnitChar), Star Space, Eol]) (?G2, u2 @ w5 @ x'))"
    by (rule seq_intro[OF unit_intro[OF parts(8)] r10])
  have r8: "(?G, x') \<in> set (rx_run s (cat [Star Space, Group 3 (Plus UnitChar), Star Space, Eol])
      (?G2, w4 @ u2 @ w5 @ x'))"
    by (rule seq_intro[OF star_intro[OF parts(7)] r9])
  have r7: "(?G, x') \<in> set (rx_run s
      (cat [Alt (Lit (py ''to'')) (Alt (Lit (py ''in'')) (Alt (Lit arrow) (Lit (py ''>'')))),
            Star Space, Group 3 (Plus UnitChar), Star Space, Eol])
      (?G2, c @ w4 @ u2 @ w5 @ x'))"
    by (rule seq_intro[OF connector_intro[OF parts(6)] r8])
  have r6: "(?G, x') \<in> set (rx_run s
      (cat [Star Space,
            Alt (Lit (py ''to'')) (Alt (Lit (py ''in'')) (Alt (Lit arrow) (Lit (py ''>'')))),
            Star Space, Group 3 (Plus UnitChar), Star Space, Eol])
      (?G2, w3 @ c @ w4 @ u2 @ w5 @ x'))"
    by (rule seq_intro[OF star_intro[OF parts(5)] r7])
  have r5: "(?G, x') \<in> set (rx_run s
      (cat [Group 2 (Plus UnitChar), Star Space,
            Alt (Lit (py ''to'')) (Alt (Lit (py ''in'')) (Alt (Lit arrow) (Lit (py ''>'')))),
            Star Space, Group 3 (Plus UnitChar), Star Space, Eol])
      (?G1, u1 @ w3 @ c @ w4 @ u2 @ w5 @ x'))"
    by (rule seq_intro[OF unit_intro[OF parts(4)] r6])
  have r4: "(?G, x') \<in> set (rx_run s
      (cat [Star Space, Group 2 (Plus UnitChar), Star Space,
            Alt (Lit (py ''to'')) (Alt (Lit (py ''in'')) (Alt (Lit arrow) (Lit (py ''>'')))),
            Star Space, Group 3 (Plus UnitChar), Star Space, Eol])
      (?G1, w2 @ u1 @ w3 @ c @ w4 @ u2 @ w5 @ x'))"
    by (rule seq_intro[OF star_intro[OF parts(3)] r5])
  have r3: "(?G, x') \<in> set (rx_run s
      (cat [Group 1 (cat [Plus Digit, Opt (cat [Lit (py ''.''), Plus Digit])]),
            Star Space, Group 2 (Plus UnitChar), Star Space,
            Alt (Lit (py ''to'')) (Alt (Lit (py ''in'')) (Alt (Lit arrow) (Lit (py ''>'')))),
            Star Space, Group 3 (Plus UnitChar), Star Space, Eol])
      (Map.empty, n @ w2 @ u1 @ w3 @ c @ w4 @ u2 @ w5 @ x'))"
    by (rule seq_intro[OF number_intro[OF parts(2)] r4])
  have r2: "(?G, x') \<in> set (rx_run s
      (cat [Star Space, Group 1 (cat [Plus Digit, Opt (cat [Lit (py ''.''), Plus Digit])]),
            Star Space, Group 2 (Plus UnitChar), Star Space,
            Alt (Lit (py ''to'')) (Alt (Lit (py ''in'')) (Alt (Lit arrow) (Lit (py ''>'')))),
            Star Space, Group 3 (Plus UnitChar), Star Space, Eol])
      (Map.empty, w1 @ n @ w2 @ u1 @ w3 @ c @ w4 @ u2 @ w5 @ x'))"
    by (rule seq_intro[OF star_intro[OF parts(1)] r3])
  have s': "(w1 @ n @ w2 @ u1 @ w3 @ c @ w4 @ u2 @ w5 @ x') = s" using s by simp
  have bol: "(Map.empty, s) \<in> set (rx_run s Bol (Map.empty, s))"
    by simp
  show ?thesis
    unfolding CONV_RE_def by (rule seq_intro[OF bol r2[unfolded s']])
qed

lemma seq_elim:
  assumes "st \<in> set (rx_run s (cat (a # rs)) (g, x))"
  obtains g1 x1 where "(g1, x1) \<in> set (rx_run s a (g, x))" "st \<in> set (rx_run s (cat rs) (g1, x1))"
proof -
  from assms obtain st' where 1: "st' \<in> set (rx_run s a (g, x))"
    and 2: "st \<in> set (rx_run s (cat rs) st')"
    unfolding cat_simps mem_seq by blast
  obtain g1 x1 where "st' = (g1, x1)" by (cases st')
  then show thesis using 1 2 that by simp
qed

lemma star_elim:
  assumes "(g1, x1) \<in> set (rx_run s (Star Space) (g, x))"
  obtains w where "g1 = g" "x = w @ x1" "blank w"
  using assms unfolding mem_star blank_def by blast

lemma unit_elim:
  assumes "(g1, x1) \<in> set (rx_run s (Group i (Plus UnitChar)) (g, x))"
  obtains u where "g1 = g(i \<mapsto> u)" "x = u @ x1" "unit_token u"
  using assms unfolding mem_group_consumes[OF consumes_plus] unit_token_def by blast

lemma number_elim:
  assumes "(g1, x1) \<in> set (rx_run s (Group i (cat [Plus Digit, Opt (cat [Lit (py ''.''), Plus Digit])])) (g, x))"
  obtains n where "g1 = g(i \<mapsto> n)" "x = n @ x1" "number_text n"
  using assms unfolding mem_group_consumes[OF consumes_number] by blast

lemma connector_elim:
  assumes "(g1, x1) \<in> set (rx_run s (Alt (Lit (py ''to'')) (Alt (Lit (py ''in'')) (Alt (Lit arrow) (Lit (py ''>''))))) (g, x))"
  obtains c where "g1 = g" "x = c @ x1" "c \<in> set connectors"
  using assms unfolding mem_consumes[OF consumes_connector] by blast

lemma conv_re_sound:
  assumes "(g, x') \<in> set (rx_run s CONV_RE (Map.empty, s))"
  shows "(x' = [] \<or> x' = [10]) \<and>
     (\<exists>w1 n w2 u1 w3 c w4 u2 w5.
        s = w1 @ n @ w2 @ u1 @ w3 @ c @ w4 @ u2 @ w5 @ x' \<and>
        blank w1 \<and> number_text n \<and> blank w2 \<and> unit_token u1 \<and> blank w3 \<and>
        c \<in> set connectors \<and> blank w4 \<and> unit_token u2 \<and> blank w5 \<and>
        g = [1 \<mapsto> n, 2 \<mapsto> u1, 3 \<mapsto> u2])"
proof -
  from assms obtain g0 x0 where a0: "(g0, x0) \<in> set (rx_run s Bol (Map.empty, s))"
    and b0: "(g, x') \<in> set (rx_run s (cat [Star Space,
            Group 1 (cat [Plus Digit, Opt (cat [Lit (py ''.''), Plus Digit])]),
            Star Space, Group 2 (Plus UnitChar), Star Space,
            Alt (Lit (py ''to'')) (Alt (Lit (py ''in'')) (Alt (Lit arrow) (Lit (py ''>'')))),
            Star Space, Group 3 (Plus UnitChar), Star Space, Eol]) (g0, x0))"
    unfolding CONV_RE_def by (rule seq_elim)
  from a0 have g0: "g0 = Map.empty" "x0 = s" by (auto split: if_splits)
  from b0 obtain g1 x1 where a1: "(g1, x1) \<in> set (rx_run s (Star Space) (g0, x0))"
    and b1: "(g, x') \<in> set (rx_run s (cat [
            Group 1 (cat [Plus Digit, Opt (cat [Lit (py ''.''), Plus Digit])]),
            Star Space, Group 2 (Plus UnitChar), Star Space,
            Alt (Lit (py ''to'')) (Alt (Lit (py ''in'')) (Alt (Lit arrow) (Lit (py ''>'')))),
            Star Space, Group 3 (Plus UnitChar), Star Space, Eol]) (g1, x1))"
    by (rule seq_elim)
  from a1 obtain w1 where w1: "g1 = g0" "x0 = w1 @ x1" "blank w1" by (rule star_elim)
  from b1 obtain g2 x2 where a2: "(g2, x2) \<in> set (rx_run s
            (Group 1 (cat [Plus Digit, Opt (cat [Lit (py ''.''), Plus Digit])])) (g1, x1))"
    and b2: "(g, x') \<in> set (rx_run s (cat [
            Star Space, Group 2 (Plus UnitChar), Star Space,
            Alt (Lit (py ''to'')) (Alt (Lit (py ''in'')) (Alt (Lit arrow) (Lit (py ''>'')))),
            Star Space, Group 3 (Plus UnitChar), Star Space, Eol]) (g2, x2))"
    by (rule seq_elim)
  from a2 obtain n where n: "g2 = g1(1 \<mapsto> n)" "x1 = n @ x2" "number_text n" by (rule number_elim)
  from b2 obtain g3 x3 where a3: "(g3, x3) \<in> set (rx_run s (Star Space) (g2, x2))"
    and b3: "(g, x') \<in> set (rx_run s (cat [
            Group 2 (Plus UnitChar), Star Space,
            Alt (Lit (py ''to'')) (Alt (Lit (py ''in'')) (Alt (Lit arrow) (Lit (py ''>'')))),
            Star Space, Group 3 (Plus UnitChar), Star Space, Eol]) (g3, x3))"
    by (rule seq_elim)
  from a3 obtain w2 where w2: "g3 = g2" "x2 = w2 @ x3" "blank w2" by (rule star_elim)
  from b3 obtain g4 x4 where a4: "(g4, x4) \<in> set (rx_run s (Group 2 (Plus UnitChar)) (g3, x3))"
    and b4: "(g, x') \<in> set (rx_run s (cat [Star Space,
            Alt (Lit (py ''to'')) (Alt (Lit (py ''in'')) (Alt (Lit arrow) (Lit (py ''>'')))),
            Star Space, Group 3 (Plus UnitChar), Star Space, Eol]) (g4, x4))"
    by (rule seq_elim)
  from a4 obtain u1 where u1: "g4 = g3(2 \<mapsto> u1)" "x3 = u1 @ x4" "unit_token u1" by (rule unit_elim)
  from b4 obtain g5 x5 where a5: "(g5, x5) \<in> set (rx_run s (Star Space) (g4, x4))"
    and b5: "(g, x') \<in> set (rx_run s (cat [
            Alt (Lit (py ''to'')) (Alt (Lit (py ''in'')) (Alt (Lit arrow) (Lit (py ''>'')))),
            Star Space, Group 3 (Plus UnitChar), Star Space, Eol]) (g5, x5))"
    by (rule seq_elim)
  from a5 obtain w3 where w3: "g5 = g4" "x4 = w3 @ x5" "blank w3" by (rule star_elim)
  from b5 obtain g6 x6 where a6: "(g6, x6) \<in> set (rx_run s
            (Alt (Lit (py ''to'')) (Alt (Lit (py ''in'')) (Alt (Lit arrow) (Lit (py ''>''))))) (g5, x5))"
    and b6: "(g, x') \<in> set (rx_run s (cat [
            Star Space, Group 3 (Plus UnitChar), Star Space, Eol]) (g6, x6))"
    by (rule seq_elim)
  from a6 obtain c where c: "g6 = g5" "x5 = c @ x6" "c \<in> set connectors" by (rule connector_elim)
  from b6 obtain g7 x7 where a7: "(g7, x7) \<in> set (rx_run s (Star Space) (g6, x6))"
    and b7: "(g, x') \<in> set (rx_run s (cat [Group 3 (Plus UnitChar), Star Space, Eol]) (g7, x7))"
    by (rule seq_elim)
  from a7 obtain w4 where w4: "g7 = g6" "x6 = w4 @ x7" "blank w4" by (rule star_elim)
  from b7 obtain g8 x8 where a8: "(g8, x8) \<in> set (rx_run s (Group 3 (Plus UnitChar)) (g7, x7))"
    and b8: "(g, x') \<in> set (rx_run s (cat [Star Space, Eol]) (g8, x8))"
    by (rule seq_elim)
  from a8 obtain u2 where u2: "g8 = g7(3 \<mapsto> u2)" "x7 = u2 @ x8" "unit_token u2" by (rule unit_elim)
  from b8 obtain g9 x9 where a9: "(g9, x9) \<in> set (rx_run s (Star Space) (g8, x8))"
    and b9: "(g, x') \<in> set (rx_run s (cat [Eol]) (g9, x9))"
    by (rule seq_elim)
  from a9 obtain w5 where w5: "g9 = g8" "x8 = w5 @ x9" "blank w5" by (rule star_elim)
  from b9 have e: "g = g9" "x' = x9" "x9 = [] \<or> x9 = [10]"
    unfolding cat_simps mem_seq mem_eol mem_eps by auto
  have "s = w1 @ n @ w2 @ u1 @ w3 @ c @ w4 @ u2 @ w5 @ x'"
    using g0 w1 n w2 u1 w3 c w4 u2 w5 e by simp
  moreover have "g = [1 \<mapsto> n, 2 \<mapsto> u1, 3 \<mapsto> u2]"
    using g0 w1 n w2 u1 w3 c w4 u2 w5 e by simp
  ultimately show ?thesis
    using e w1(3) n(3) w2(3) u1(3) w3(3) c(3) w4(3) u2(3) w5(3) by blast
qed

lemma newline_blank: "blank [10]"
  by (simp add: blank_def white_space_def)

lemma blank_Nil: "blank []"
  by (simp add: blank_def)

lemma blank_append: "blank (a @ b) \<longleftrightarrow> blank a \<and> blank b"
  by (simp add: blank_def)

lemma shorthand_shape_iff:
  "shorthand_shape s \<longleftrightarrow> rx_run s CONV_RE (Map.empty, s) \<noteq> []"
proof
  assume "shorthand_shape s"
  then obtain n u1 u2 w1 w2 w3 c w4 w5 where
    s: "s = w1 @ n @ w2 @ u1 @ w3 @ c @ w4 @ u2 @ w5 @ []"
    and p: "blank w1" "number_text n" "blank w2" "unit_token u1" "blank w3"
      "c \<in> set connectors" "blank w4" "unit_token u2" "blank w5"
    unfolding shorthand_shape_def shorthand_parts_def by auto
  have "([1 \<mapsto> n, 2 \<mapsto> u1, 3 \<mapsto> u2], []) \<in> set (rx_run s CONV_RE (Map.empty, s))"
    by (rule conv_re_complete[OF s _ p]) simp
  then show "rx_run s CONV_RE (Map.empty, s) \<noteq> []" by auto
next
  assume "rx_run s CONV_RE (Map.empty, s) \<noteq> []"
  then obtain g x' where "(g, x') \<in> set (rx_run s CONV_RE (Map.empty, s))"
    by (cases "rx_run s CONV_RE (Map.empty, s)") auto
  from conv_re_sound[OF this] obtain w1 n w2 u1 w3 c w4 u2 w5 where
    x': "x' = [] \<or> x' = [10]"
    and s: "s = w1 @ n @ w2 @ u1 @ w3 @ c @ w4 @ u2 @ w5 @ x'"
    and p: "blank w1" "number_text n" "blank w2" "unit_token u1" "blank w3"
      "c \<in> set connectors" "blank w4" "unit_token u2" "blank w5"
    by blast
  have "blank (w5 @ x')" using x' p(9) newline_blank blank_Nil by (auto simp: blank_append)
  then have "shorthand_parts s n u1 u2"
    unfolding shorthand_parts_def using s p by (intro exI[of _ w1] exI[of _ w2] exI[of _ w3] exI[of _ c] exI[of _ w4] exI[of _ "w5 @ x'"]) simp
  then show "shorthand_shape s" unfolding shorthand_shape_def by blast
qed

lemma re_match_None: "re_match CONV_RE s = None \<longleftrightarrow> \<not> shorthand_shape s"
  unfolding shorthand_shape_iff re_match_def by (auto split: list.splits)

lemma re_match_Some:
  assumes "re_match CONV_RE s = Some g"
  shows "\<exists>n u1 u2. g = [1 \<mapsto> n, 2 \<mapsto> u1, 3 \<mapsto> u2] \<and> shorthand_parts s n u1 u2"
proof -
  from assms obtain x' where "(g, x') \<in> set (rx_run s CONV_RE (Map.empty, s))"
    unfolding re_match_def by (auto split: list.splits)
  from conv_re_sound[OF this] obtain w1 n w2 u1 w3 c w4 u2 w5 where
    x': "x' = [] \<or> x' = [10]"
    and s: "s = w1 @ n @ w2 @ u1 @ w3 @ c @ w4 @ u2 @ w5 @ x'"
    and p: "blank w1" "number_text n" "blank w2" "unit_token u1" "blank w3"
      "c \<in> set connectors" "blank w4" "unit_token u2" "blank w5"
    and g: "g = [1 \<mapsto> n, 2 \<mapsto> u1, 3 \<mapsto> u2]"
    by blast
  have "blank (w5 @ x')" using x' p(9) newline_blank blank_Nil by (auto simp: blank_append)
  then have "shorthand_parts s n u1 u2"
    unfolding shorthand_parts_def using s p by (intro exI[of _ w1] exI[of _ w2] exI[of _ w3] exI[of _ c] exI[of _ w4] exI[of _ "w5 @ x'"]) simp
  then show ?thesis using g by blast
qed

lemma decimal_value_dot: "decimal_value 46 = None"
  by (simp add: decimal_value_def zero_digits_def)

lemma digits_no_dot: "list_all (in_class Digit) d \<Longrightarrow> 46 \<notin> set d"
  using decimal_value_dot by (auto simp: list_all_iff)

lemma digits_value_Some: "list_all (in_class Digit) d \<Longrightarrow> \<exists>k. digits_value d = Some k"
  by (induction d) auto

lemma takeWhile_all: "\<forall>x\<in>set d. P x \<Longrightarrow> takeWhile P (d @ r) = d @ takeWhile P r"
  by (induction d) auto

lemma dropWhile_all: "\<forall>x\<in>set d. P x \<Longrightarrow> dropWhile P (d @ r) = dropWhile P r"
  by (induction d) auto

lemma number_text_decimal:
  assumes "number_text n"
  shows "\<exists>q. decimal_number n = Some q"
proof -
  from assms consider "digits n" | d e where "n = d @ py ''.'' @ e" "digits d" "digits e"
    unfolding number_text_def by blast
  then show ?thesis
  proof cases
    case 1
    then have nd: "\<forall>x\<in>set n. x \<noteq> 46" using digits_no_dot[of n] by (auto simp: digits_def)
    have t: "takeWhile (\<lambda>c. c \<noteq> 46) n = n" and r: "dropWhile (\<lambda>c. c \<noteq> 46) n = []"
      using nd by auto
    show ?thesis
      using 1 digits_value_Some[of n] by (auto simp: decimal_number_def digits_def t r)
  next
    case 2
    have nd: "\<forall>x\<in>set d. x \<noteq> 46" using 2(2) digits_no_dot[of d] by (auto simp: digits_def)
    have t: "takeWhile (\<lambda>c. c \<noteq> 46) n = d"
      using takeWhile_all[OF nd, of "46 # e"] 2(1) by (simp add: py_def)
    have r: "dropWhile (\<lambda>c. c \<noteq> 46) n = 46 # e"
      using dropWhile_all[OF nd, of "46 # e"] 2(1) by (simp add: py_def)
    show ?thesis
      using 2(2,3) digits_value_Some[of d] digits_value_Some[of e]
      by (auto simp: decimal_number_def t r digits_def)
  qed
qed

lemma convert_float:
  "convert rt (VFloat x) (VStr from_u) (VStr to_u) =
     (let fu = str_lower from_u; tu = str_lower to_u
      in if fu \<in> dom (map_of VOL_ML) \<and> tu \<in> dom (map_of VOL_ML)
         then Inr (VFloat (fdiv (fmul x (unit_scale VOL_ML fu)) (unit_scale VOL_ML tu)))
         else if fu \<in> dom (map_of MASS_G) \<and> tu \<in> dom (map_of MASS_G)
         then Inr (VFloat (fdiv (fmul x (unit_scale MASS_G fu)) (unit_scale MASS_G tu)))
         else Inl (ValueError_cant_convert (VStr from_u) (VStr to_u)))"
  by (auto simp: convert_def Let_def unit_scale_def mul_div_good VOL_ML_good MASS_G_good
      split: option.splits)

lemma convert_float_cases:
  "(convertible from_u to_u \<longrightarrow> (\<exists>y. convert rt (VFloat x) (VStr from_u) (VStr to_u) = Inr (VFloat y))) \<and>
   (\<not> convertible from_u to_u \<longrightarrow>
      convert rt (VFloat x) (VStr from_u) (VStr to_u) = Inl (ValueError_cant_convert (VStr from_u) (VStr to_u)))"
  unfolding convert_float convertible_def by (auto simp: Let_def)


lemma try_unit_conversion_shape:
  assumes "shorthand_shape s"
  shows "\<exists>n u1 u2 q. shorthand_parts s n u1 u2 \<and> decimal_number n = Some q \<and>
           try_unit_conversion rt s = convert rt (VFloat (round64 q)) (VStr u1) (VStr u2)"
proof -
  from assms obtain g where g: "re_match CONV_RE s = Some g"
    using re_match_None[of s] by (cases "re_match CONV_RE s") auto
  from re_match_Some[OF g] obtain n u1 u2 where
    gm: "g = [1 \<mapsto> n, 2 \<mapsto> u1, 3 \<mapsto> u2]" and parts: "shorthand_parts s n u1 u2"
    by blast
  have "number_text n" using parts unfolding shorthand_parts_def by blast
  then obtain q where q: "decimal_number n = Some q" using number_text_decimal by blast
  have "try_unit_conversion rt s = convert rt (VFloat (round64 q)) (VStr u1) (VStr u2)"
    by (simp add: try_unit_conversion_def g gm group_def q)
  then show ?thesis using parts q by blast
qed

section \<open>Words of a shorthand\<close>

lemma words_acc_solid:
  "list_all (\<lambda>c. \<not> in_class Space c) p \<Longrightarrow> words_acc acc (p @ y) = words_acc (acc @ p) y"
  by (induction p arbitrary: acc) auto

lemma words_acc_blank0: "blank w \<Longrightarrow> words_acc [] (w @ y) = words_acc [] y"
  by (induction w) (auto simp: blank_def)

lemma words_acc_blank:
  "blank w \<Longrightarrow> w \<noteq> [] \<Longrightarrow> acc \<noteq> [] \<Longrightarrow> words_acc acc (w @ y) = acc # words_acc [] y"
proof (cases w)
  case Nil
  assume "w \<noteq> []"
  with Nil show ?thesis by simp
next
  case (Cons c cs)
  assume "blank w" "acc \<noteq> []"
  then show ?thesis
    using Cons words_acc_blank0[of cs y] by (simp add: blank_def)
qed

lemma solid_append: "solid p \<Longrightarrow> solid q \<Longrightarrow> solid (p @ q)"
  by (simp add: solid_def)

lemma spell_simps:
  "spell [] = []" "spell ((p, v) # ts) = p @ v @ spell ts"
  by (simp_all add: spell_def)

lemma words_spell:
  "\<forall>(p, v)\<in>set ts. solid p \<and> blank v \<Longrightarrow> words_acc [] (spell ts) = merge ts"
proof (induction ts rule: merge.induct)
  case 1
  then show ?case by (simp add: spell_simps)
next
  case (2 p v)
  then have p: "solid p" and v: "blank v" by auto
  have "words_acc [] (spell [(p, v)]) = words_acc p (v @ [])"
    using p words_acc_solid[of p "[]" "v @ []"] by (simp add: spell_simps solid_def)
  also have "\<dots> = [p]"
  proof (cases "v = []")
    case True
    then show ?thesis using p by (simp add: solid_def)
  next
    case False
    then show ?thesis using words_acc_blank[OF v False, of p "[]"] p by (simp add: solid_def)
  qed
  finally show ?case by simp
next
  case (3 p v q u r)
  then have p: "solid p" and v: "blank v" and q: "solid q" and u: "blank u"
    and r: "\<forall>(p, v)\<in>set r. solid p \<and> blank v" by auto
  show ?case
  proof (cases "v = []")
    case True
    have "\<forall>(p, v)\<in>set ((p @ q, u) # r). solid p \<and> blank v"
      using solid_append[OF p q] u r by auto
    then have "words_acc [] (spell ((p @ q, u) # r)) = merge ((p @ q, u) # r)"
      using 3(1)[OF True] by blast
    then show ?thesis using True by (simp add: spell_simps)
  next
    case False
    have "\<forall>(p, v)\<in>set ((q, u) # r). solid p \<and> blank v" using q u r by auto
    then have IH: "words_acc [] (spell ((q, u) # r)) = merge ((q, u) # r)"
      using 3(2)[OF False] by blast
    have "words_acc [] (spell ((p, v) # (q, u) # r)) = words_acc p (v @ spell ((q, u) # r))"
      using p words_acc_solid[of p "[]" "v @ spell ((q, u) # r)"]
      by (simp add: spell_simps(2)[of p v] solid_def)
    also have "\<dots> = p # words_acc [] (spell ((q, u) # r))"
      using words_acc_blank[OF v False, of p] p by (simp add: solid_def)
    finally show ?thesis using IH False by simp
  qed
qed

lemma white_space_no_digit: "\<forall>c\<in>set white_space. decimal_value c = None"
  by (simp add: white_space_def decimal_value_def zero_digits_def)

lemma space_not_digit: "in_class Space c \<Longrightarrow> \<not> in_class Digit c"
  using white_space_no_digit by simp

lemma space_not_unit: "in_class Space c \<Longrightarrow> \<not> in_class UnitChar c"
  by (auto simp: white_space_def)

lemma zero_digits_range: "\<forall>z\<in>set zero_digits. z = 48 \<or> 1632 \<le> z"
  by (simp add: zero_digits_def)

lemma digit_range: "in_class Digit c \<Longrightarrow> (48 \<le> c \<and> c \<le> 57) \<or> 1632 \<le> c"
proof -
  assume "in_class Digit c"
  then have "filter (\<lambda>z. z \<le> c \<and> c < z + 10) zero_digits \<noteq> []"
    by (auto simp: decimal_value_def split: list.splits)
  then obtain z where "z \<in> set (filter (\<lambda>z. z \<le> c \<and> c < z + 10) zero_digits)"
    by (cases "filter (\<lambda>z. z \<le> c \<and> c < z + 10) zero_digits") auto
  then have z: "z \<in> set zero_digits" "z \<le> c" "c < z + 10" by auto
  then have "z = 48 \<or> 1632 \<le> z" using zero_digits_range by blast
  then show ?thesis using z by auto
qed

lemma digit_not_unit: "in_class Digit c \<Longrightarrow> \<not> in_class UnitChar c"
  using digit_range[of c] by auto

lemma dot_not_space: "\<not> in_class Space 46"
  by (simp add: white_space_def)

lemma digits_solid: "digits d \<Longrightarrow> solid d"
  using space_not_digit by (auto simp: digits_def solid_def list_all_iff)

lemma number_solid: "number_text n \<Longrightarrow> solid n"
proof -
  assume "number_text n"
  then consider "digits n" | d e where "n = d @ py ''.'' @ e" "digits d" "digits e"
    unfolding number_text_def by blast
  then show ?thesis
  proof cases
    case 1
    then show ?thesis by (rule digits_solid)
  next
    case 2
    have "solid (py ''.'')" using dot_not_space by (simp add: solid_def py_def)
    then show ?thesis
      using 2 digits_solid solid_append by simp
  qed
qed

lemma unit_solid: "unit_token u \<Longrightarrow> solid u"
  using space_not_unit by (auto simp: unit_token_def solid_def list_all_iff)

lemma connector_solid: "c \<in> set connectors \<Longrightarrow> solid c"
  by (auto simp: connectors_def solid_def py_def arrow_def white_space_def)

lemma space_lower: "in_class Space c \<Longrightarrow> lower_cp c = [c]"
  by (auto simp: white_space_def lower_cp_def)

lemma str_lower_mem: "c \<in> set s \<Longrightarrow> set (lower_cp c) \<subseteq> set (str_lower s)"
  by (auto simp: str_lower_def)

lemma odd_connector_solid:
  assumes "odd_case_connector c"
  shows "solid c"
proof -
  have low: "solid (str_lower c)" using assms connector_solid by (simp add: odd_case_connector_def)
  have "c \<noteq> []" using low by (auto simp: solid_def str_lower_def)
  moreover have "\<not> in_class Space x" if "x \<in> set c" for x
  proof
    assume sp: "in_class Space x"
    then have "x \<in> set (str_lower c)" using str_lower_mem[OF that] space_lower[OF sp] by simp
    then show False using low sp by (auto simp: solid_def list_all_iff)
  qed
  ultimately show ?thesis by (auto simp: solid_def list_all_iff)
qed

lemma number_last_digit:
  assumes "number_text n"
  shows "n \<noteq> [] \<and> in_class Digit (last n)"
proof -
  have d: "digits e \<Longrightarrow> e \<noteq> [] \<and> in_class Digit (last e)" for e
    by (auto simp: digits_def list_all_iff)
  from assms consider "digits n" | d' e where "n = d' @ py ''.'' @ e" "digits d'" "digits e"
    unfolding number_text_def by blast
  then show ?thesis
  proof cases
    case 1
    then show ?thesis using d by blast
  next
    case 2
    then show ?thesis using d[of e] by simp
  qed
qed

lemma number_not_ending_in_unit:
  assumes "number_text m" "unit_token u"
  shows "m \<noteq> n @ u"
proof
  assume "m = n @ u"
  then have "last m = last u" using assms(2) by (simp add: unit_token_def)
  moreover have "in_class UnitChar (last u)" using assms(2) by (auto simp: unit_token_def list_all_iff)
  moreover have "in_class Digit (last m)" using number_last_digit[OF assms(1)] by simp
  ultimately show False using digit_not_unit by metis
qed

lemma words_of_parts:
  assumes "blank v1" "solid p1" "blank v2" "solid p2" "blank v3" "solid p3" "blank v4" "solid p4"
    "blank v5"
  shows "words_acc [] (v1 @ p1 @ v2 @ p2 @ v3 @ p3 @ v4 @ p4 @ v5)
           = merge [(p1, v2), (p2, v3), (p3, v4), (p4, v5)]"
proof -
  have "v1 @ p1 @ v2 @ p2 @ v3 @ p3 @ v4 @ p4 @ v5
          = v1 @ spell [(p1, v2), (p2, v3), (p3, v4), (p4, v5)]"
    by (simp add: spell_simps)
  moreover have "words_acc [] (spell [(p1, v2), (p2, v3), (p3, v4), (p4, v5)])
          = merge [(p1, v2), (p2, v3), (p3, v4), (p4, v5)]"
    by (rule words_spell) (use assms in simp)
  ultimately show ?thesis using words_acc_blank0[OF assms(1)] by simp
qed

lemma odd_connector_no_shape:
  assumes "blank w1" "number_text n" "blank w2" "unit_token u1" "blank w3" "w3 \<noteq> []"
    "odd_case_connector c" "blank w4" "w4 \<noteq> []" "unit_token u2" "blank w5"
  shows "\<not> shorthand_shape (w1 @ n @ w2 @ u1 @ w3 @ c @ w4 @ u2 @ w5)"
proof
  let ?s = "w1 @ n @ w2 @ u1 @ w3 @ c @ w4 @ u2 @ w5"
  assume "shorthand_shape ?s"
  then obtain m a b v1 v2 v3 k v4 v5 where
    s: "?s = v1 @ m @ v2 @ a @ v3 @ k @ v4 @ b @ v5"
    and p: "blank v1" "number_text m" "blank v2" "unit_token a" "blank v3"
      "k \<in> set connectors" "blank v4" "unit_token b" "blank v5"
    unfolding shorthand_shape_def shorthand_parts_def by blast
  have L: "words_acc [] ?s = merge [(n, w2), (u1, w3), (c, w4), (u2, w5)]"
    by (rule words_of_parts)
       (use assms number_solid unit_solid odd_connector_solid in auto)
  have R: "words_acc [] (v1 @ m @ v2 @ a @ v3 @ k @ v4 @ b @ v5)
            = merge [(m, v2), (a, v3), (k, v4), (b, v5)]"
    by (rule words_of_parts)
       (use p number_solid unit_solid connector_solid in auto)
  have eq: "merge [(n, w2), (u1, w3), (c, w4), (u2, w5)] = merge [(m, v2), (a, v3), (k, v4), (b, v5)]"
    using L R s by simp
  have ck: "c \<noteq> k" using assms(7) p(6) by (auto simp: odd_case_connector_def)
  have mn: "m \<noteq> n @ u1" using number_not_ending_in_unit[OF p(2) assms(4)] .
  show False
    using eq assms(6,9) ck mn by (auto split: if_splits)
qed

lemma lower_cp_length: "1 \<le> length (lower_cp x)"
  by (simp add: lower_cp_def)

lemma str_lower_length: "length s \<le> length (str_lower s)"
proof (induction s)
  case Nil
  then show ?case by (simp add: str_lower_def)
next
  case (Cons x xs)
  then show ?case using lower_cp_length[of x] by (simp add: str_lower_def)
qed

lemma odd_case_connector_iff:
  "odd_case_connector c \<longleftrightarrow> c \<in> set (map py [''TO'', ''To'', ''tO'', ''IN'', ''In'', ''iN''])"
proof
  assume "c \<in> set (map py [''TO'', ''To'', ''tO'', ''IN'', ''In'', ''iN''])"
  then show "odd_case_connector c"
    by (auto simp: odd_case_connector_def connectors_def py_def arrow_def str_lower_def lower_cp_def)
next
  assume a: "odd_case_connector c"
  then have len: "length (str_lower c) \<le> 2"
    by (auto simp: odd_case_connector_def connectors_def py_def arrow_def)
  then have "length c \<le> 2" using str_lower_length[of c] by simp
  then consider "c = []" | x where "c = [x]" | x y where "c = [x, y]"
    by (cases c; cases "tl c"; cases "tl (tl c)") auto
  then show "c \<in> set (map py [''TO'', ''To'', ''tO'', ''IN'', ''In'', ''iN''])"
  proof cases
    case 1
    then show ?thesis using a
      by (simp add: odd_case_connector_def connectors_def py_def arrow_def str_lower_def)
  next
    case 2
    then show ?thesis using a
      by (auto simp: odd_case_connector_def connectors_def py_def arrow_def str_lower_def lower_cp_def
          split: if_splits)
  next
    case 3
    then show ?thesis using a
      by (auto simp: odd_case_connector_def connectors_def py_def arrow_def str_lower_def lower_cp_def
          split: if_splits)
  qed
qed

section \<open>The claims\<close>

text \<open>
  C4. The claim: the integral-float normalization is applied to the result of the unit
  shorthand as well. The code returns the result of \<open>try_unit_conversion\<close> before the
  normalization: \<open>"2 l to ml"\<close> yields the float \<open>2000.0\<close>, for every runtime, where
  the same conversion written as the call \<open>convert(2, 'l', 'ml')\<close> goes through the
  arithmetic path and yields the integer \<open>2000\<close>.
\<close>

theorem shorthand_result_not_tidied:
  "safe_eval rt (py ''2 l to ml'') = Inr (VFloat (Fin 2000)) \<and>
   safe_eval sample_runtime
     (py ''convert(2, '' @ [39] @ py ''l'' @ [39] @ py '', '' @ [39] @ py ''ml'' @ [39] @ py '')'')
     = Inr (VInt 2000)"
  by (simp add: safe_eval_def try_unit_conversion_def regex_defs convert_defs sample_defs tidy_def)


text \<open>
  C9. In a call only the positional arguments are evaluated and passed on. The keywords of
  the parsed call are neither evaluated, passed nor rejected: a call has the result of the
  same call without keywords. \<open>log(100, base=10)\<close> is \<open>math.log(100)\<close> for every runtime, and
  \<open>convert(2, 'l', 'ml', precision=undefined_name)\<close> succeeds although its keyword names an
  unknown identifier.
\<close>

theorem call_keywords_discarded:
  "eval_node rt (Call func args keywords) = eval_node rt (Call func args []) \<and>
   eval_node rt (Call (Name (py ''log'')) [Constant (VInt 100)]
                   [(Some (py ''base''), Constant (VInt 10))])
     = (case math_call rt (py ''log'') [VInt 100] of Inl e \<Rightarrow> Inl e | Inr x \<Rightarrow> Inr (VFloat x)) \<and>
   eval_node rt (Call (Name (py ''convert''))
                   [Constant (VInt 2), Constant (VStr (py ''l'')), Constant (VStr (py ''ml''))]
                   [(Some (py ''precision''), Name (py ''undefined_name''))])
     = Inr (VFloat (Fin 2000))"
  by (simp add: MATH_FUNCS_def py_def convert_defs)

text \<open>
  C3, as amended. Evaluating a name that is not a key of \<open>MATH_FUNCS\<close> (the fifteen names
  listed) raises \<open>NameError\<close> with that name, and so does \<open>safe_eval\<close> on a text that is no unit
  shorthand and parses to such a name. A call whose callee is an attribute access, such
  as \<open>os.system('x')\<close>, is rejected as an unsupported node before any name is looked up or any
  argument is evaluated; nothing is executed.
\<close>

theorem unknown_name_raises_NameError:
  "(ident \<notin> fst ` set MATH_FUNCS \<longrightarrow> eval_node rt (Name ident) = Inl (NameError ident)) \<and>
   (ident \<notin> fst ` set MATH_FUNCS \<longrightarrow> try_unit_conversion rt expr = Inr VNone \<longrightarrow>
      ast_parse rt expr = Inr (Name ident) \<longrightarrow> safe_eval rt expr = Inl (NameError ident)) \<and>
   map fst MATH_FUNCS =
     map py [''pi'', ''e'', ''tau'', ''sin'', ''cos'', ''tan'', ''asin'', ''acos'', ''atan'',
             ''sqrt'', ''log'', ''log10'', ''log2'', ''exp'', ''convert''] \<and>
   eval_node rt (Call (Attribute v a) args keywords) = Inl (ValueError_unsupported (Attribute v a))"
proof -
  have n: "map_of MATH_FUNCS ident = None" if "ident \<notin> fst ` set MATH_FUNCS"
    using that by (simp add: map_of_eq_None_iff)
  show ?thesis
    using n by (auto simp: safe_eval_def) (simp add: MATH_FUNCS_def)
qed

text \<open>The hypotheses of C3 hold for the identifier \<open>foo\<close>.\<close>

theorem unknown_name_witness:
  "py ''foo'' \<notin> fst ` set MATH_FUNCS \<and>
   try_unit_conversion sample_runtime (py ''foo'') = Inr VNone \<and>
   ast_parse sample_runtime (py ''foo'') = Inr (Name (py ''foo'')) \<and>
   eval_node sample_runtime (Name (py ''foo'')) = Inl (NameError (py ''foo'')) \<and>
   safe_eval sample_runtime (py ''foo'') = Inl (NameError (py ''foo''))"
proof -
  have a: "py ''foo'' \<notin> fst ` set MATH_FUNCS" by (simp add: MATH_FUNCS_def py_def)
  have b: "try_unit_conversion sample_runtime (py ''foo'') = Inr VNone"
    by (simp add: try_unit_conversion_def regex_defs)
  have c: "ast_parse sample_runtime (py ''foo'') = Inr (Name (py ''foo''))"
    by (simp add: sample_defs py_def)
  show ?thesis
    using a b c unknown_name_raises_NameError[of "py ''foo''" sample_runtime "py ''foo''"]
    by simp
qed

text \<open>
  C3 as stated fails: \<open>calculate("os.system('x')")\<close> does not raise \<open>NameError\<close>; it raises the
  \<open>ValueError\<close> of an unsupported node, for the attribute access \<open>os.system\<close>.
\<close>

theorem os_system_is_unsupported_node:
  "safe_eval sample_runtime (py ''os.system('' @ [39] @ py ''x'' @ [39] @ py '')'')
     = Inl (ValueError_unsupported (Attribute (Name (py ''os'')) (py ''system'')))"
  by (simp add: safe_eval_def try_unit_conversion_def regex_defs sample_defs)

text \<open>
  C1, as amended. A node of a class \<open>_eval\<close> has no branch for (attribute access, indexing,
  comparison, boolean operator and every other expression class) raises the \<open>ValueError\<close>
  that describes the node, and no value is produced. A unary operator other than negation
  (unary plus, \<open>not\<close>, \<open>~\<close>) and a binary operator other than the six of \<open>OPS\<close> are rejected too,
  but by the \<open>KeyError\<close> of the look-up in \<open>OPS\<close>, which names the operator class and is raised
  before any operand is evaluated.
\<close>

theorem unsupported_rejected:
  "(\<not> accepted_class n \<longrightarrow> eval_node rt n = Inl (ValueError_unsupported n)) \<and>
   (u \<noteq> USub \<longrightarrow> eval_node rt (UnaryOp u x) = Inl (KeyError (UnCls u))) \<and>
   (oper \<notin> {Add, Sub, Mult, Div, Power, Mod} \<longrightarrow>
      eval_node rt (BinOp l oper r) = Inl (KeyError (BinCls oper)))"
proof (intro conjI impI)
  assume "\<not> accepted_class n"
  then show "eval_node rt n = Inl (ValueError_unsupported n)" by (cases n) simp_all
next
  assume "u \<noteq> USub"
  then show "eval_node rt (UnaryOp u x) = Inl (KeyError (UnCls u))"
    by (cases u) (simp_all add: OPS_def)
next
  assume "oper \<notin> {Add, Sub, Mult, Div, Power, Mod}"
  then show "eval_node rt (BinOp l oper r) = Inl (KeyError (BinCls oper))"
    by (cases oper) (simp_all add: OPS_def)
qed

text \<open>The hypotheses of C1 hold for \<open>a[0]\<close>, \<open>not 1\<close> and \<open>7 // 2\<close>.\<close>

theorem unsupported_rejected_witness:
  "\<not> accepted_class (Subscript (Name (py ''a'')) (Constant (VInt 0))) \<and>
   eval_node sample_runtime (Subscript (Name (py ''a'')) (Constant (VInt 0)))
     = Inl (ValueError_unsupported (Subscript (Name (py ''a'')) (Constant (VInt 0)))) \<and>
   UNot \<noteq> USub \<and>
   eval_node sample_runtime (UnaryOp UNot (Constant (VInt 1))) = Inl (KeyError (UnCls UNot)) \<and>
   FloorDiv \<notin> {Add, Sub, Mult, Div, Power, Mod} \<and>
   eval_node sample_runtime (BinOp (Constant (VInt 7)) FloorDiv (Constant (VInt 2)))
     = Inl (KeyError (BinCls FloorDiv))"
  using unsupported_rejected[of "Subscript (Name (py ''a'')) (Constant (VInt 0))" sample_runtime
      UNot "Constant (VInt 1)" FloorDiv "Constant (VInt 7)" "Constant (VInt 2)"]
  by simp

text \<open>
  C1 as stated fails: unary plus is rejected, but not with the error of an unsupported
  expression; \<open>calculate("+1")\<close> raises \<open>KeyError\<close>.
\<close>

theorem unary_plus_raises_KeyError:
  "safe_eval sample_runtime (py ''+1'') = Inl (KeyError (UnCls UAdd))"
  by (simp add: safe_eval_def try_unit_conversion_def regex_defs sample_defs)




text \<open>
  C2, as amended. On success \<open>safe_eval\<close> returns a number (an \<open>int\<close> or a \<open>float\<close>) whenever
  the input is a unit shorthand or parses to a tree built from \<open>int\<close> and \<open>float\<close> literals,
  the constants \<open>pi\<close>, \<open>e\<close> and \<open>tau\<close>, the operators \<open>+ - * / %\<close> and unary minus, calls of the
  whitelisted \<open>math\<close> functions, and calls of \<open>convert\<close> on such a value. Nothing checks
  that a result is a number: the bare name of a function is evaluated to the function.
\<close>

theorem numeric_expression_gives_number:
  "(numeric_expr t \<longrightarrow> eval_node rt t = Inr v \<longrightarrow> is_number v) \<and>
   ((\<forall>tree. ast_parse rt expr = Inr tree \<longrightarrow> numeric_expr tree) \<longrightarrow>
      safe_eval rt expr = Inr w \<longrightarrow> is_number w)"
proof (intro conjI impI)
  assume "numeric_expr t" "eval_node rt t = Inr v"
  then show "is_number v" by (rule eval_numeric)
next
  assume num: "\<forall>tree. ast_parse rt expr = Inr tree \<longrightarrow> numeric_expr tree"
    and ok: "safe_eval rt expr = Inr w"
  obtain m where m: "try_unit_conversion rt expr = Inr m"
    using ok by (auto simp: safe_eval_def split: sum.splits)
  show "is_number w"
  proof (cases "m = VNone")
    case False
    then have "w = m" using ok m by (simp add: safe_eval_def)
    then show ?thesis using try_unit_conversion_number[OF m] False by simp
  next
    case True
    then obtain tree r where tree: "ast_parse rt expr = Inr tree"
      and r: "eval_node rt tree = Inr r" and w: "w = tidy r"
      using ok m by (auto simp: safe_eval_def split: sum.splits)
    have "is_number r" using num tree r eval_numeric by blast
    then show ?thesis using w by (simp add: tidy_number)
  qed
qed

text \<open>C2 at \<open>"10 / 4"\<close>.\<close>

theorem numeric_expression_witness:
  "numeric_expr (BinOp (Constant (VInt 10)) Div (Constant (VInt 4))) \<and>
   eval_node sample_runtime (BinOp (Constant (VInt 10)) Div (Constant (VInt 4))) = Inr (VFloat (Fin (5 / 2))) \<and>
   ast_parse sample_runtime (py ''10 / 4'') = Inr (BinOp (Constant (VInt 10)) Div (Constant (VInt 4))) \<and>
   safe_eval sample_runtime (py ''10 / 4'') = Inr (VFloat (Fin (5 / 2))) \<and>
   is_number (VFloat (Fin (5 / 2)))"
proof -
  have e: "eval_node sample_runtime (BinOp (Constant (VInt 10)) Div (Constant (VInt 4))) = Inr (VFloat (Fin (5 / 2)))"
    by (simp add: OPS_def py_truediv_def finite_or_overflow_def round64_5_2)
  have p: "ast_parse sample_runtime (py ''10 / 4'') = Inr (BinOp (Constant (VInt 10)) Div (Constant (VInt 4)))"
    by (simp add: sample_defs py_def)
  have u: "try_unit_conversion sample_runtime (py ''10 / 4'') = Inr VNone"
    by (simp add: try_unit_conversion_def regex_defs)
  have s: "safe_eval sample_runtime (py ''10 / 4'') = Inr (VFloat (Fin (5 / 2)))"
    by (simp add: safe_eval_def u p OPS_def py_truediv_def finite_or_overflow_def round64_5_2 tidy_def)
  show ?thesis
    using e p s
      numeric_expression_gives_number[of "BinOp (Constant (VInt 10)) Div (Constant (VInt 4))"
        sample_runtime "VFloat (Fin (5 / 2))" "py ''10 / 4''" "VFloat (Fin (5 / 2))"]
    by simp
qed

text \<open>
  C2 as stated fails: \<open>calculate("sin")\<close> succeeds, and its result is the function \<open>math.sin\<close>,
  not a number.
\<close>

theorem function_name_is_returned:
  "safe_eval sample_runtime (py ''sin'') = Inr (VFunc (MathFn (py ''sin'')))"
  by (simp add: safe_eval_def try_unit_conversion_def regex_defs sample_defs tidy_def)

text \<open>A literal that is no number, such as the string \<open>'abc'\<close>, is returned as it is.\<close>

lemma string_literal_is_returned:
  "safe_eval sample_runtime ([39] @ py ''abc'' @ [39]) = Inr (VStr (py ''abc''))"
  by (simp add: safe_eval_def try_unit_conversion_def regex_defs sample_defs tidy_def)




text \<open>
  C6. \<open>try_unit_conversion\<close> returns \<open>None\<close> exactly when the input does not have the shape
  of a unit shorthand, and then \<open>safe_eval\<close> goes on to parse the input as arithmetic. When
  the input has the shape, \<open>safe_eval\<close> is the conversion of the number and the units of the
  shorthand and never reaches the parser: it yields a \<open>float\<close> when the units are
  convertible and raises the \<open>ValueError\<close> "Can't convert" when they are not.
\<close>

theorem shorthand_recognizer:
  "(try_unit_conversion rt s = Inr VNone) = (\<not> shorthand_shape s) \<and>
   (\<not> shorthand_shape s \<longrightarrow>
      safe_eval rt s =
        (case ast_parse rt s of
           Inl e \<Rightarrow> Inl e
         | Inr tree \<Rightarrow> (case eval_node rt tree of Inl e \<Rightarrow> Inl e | Inr r \<Rightarrow> Inr (tidy r)))) \<and>
   (shorthand_shape s \<longrightarrow>
      (\<exists>n u1 u2 q. shorthand_parts s n u1 u2 \<and> decimal_number n = Some q \<and>
         safe_eval rt s = convert rt (VFloat (round64 q)) (VStr u1) (VStr u2) \<and>
         (convertible u1 u2 \<longrightarrow> (\<exists>x. safe_eval rt s = Inr (VFloat x))) \<and>
         (\<not> convertible u1 u2 \<longrightarrow>
            safe_eval rt s = Inl (ValueError_cant_convert (VStr u1) (VStr u2)))))"
proof -
  have none: "try_unit_conversion rt s = Inr VNone" if "\<not> shorthand_shape s"
    using that re_match_None[of s] by (simp add: try_unit_conversion_def)
  have some: "\<exists>n u1 u2 q. shorthand_parts s n u1 u2 \<and> decimal_number n = Some q \<and>
         try_unit_conversion rt s = convert rt (VFloat (round64 q)) (VStr u1) (VStr u2) \<and>
         safe_eval rt s = convert rt (VFloat (round64 q)) (VStr u1) (VStr u2) \<and>
         (convertible u1 u2 \<longrightarrow> (\<exists>x. safe_eval rt s = Inr (VFloat x))) \<and>
         (\<not> convertible u1 u2 \<longrightarrow>
            safe_eval rt s = Inl (ValueError_cant_convert (VStr u1) (VStr u2)))"
    if "shorthand_shape s"
  proof -
    from try_unit_conversion_shape[OF that, of rt] obtain n u1 u2 q where
      p: "shorthand_parts s n u1 u2" and q: "decimal_number n = Some q"
      and t: "try_unit_conversion rt s = convert rt (VFloat (round64 q)) (VStr u1) (VStr u2)"
      by blast
    have se: "safe_eval rt s = convert rt (VFloat (round64 q)) (VStr u1) (VStr u2)"
      using convert_float_cases[of u1 u2 rt "round64 q"]
      by (cases "convertible u1 u2") (auto simp: safe_eval_def t)
    have c1: "convertible u1 u2 \<longrightarrow> (\<exists>x. safe_eval rt s = Inr (VFloat x))"
      and c2: "\<not> convertible u1 u2 \<longrightarrow>
            safe_eval rt s = Inl (ValueError_cant_convert (VStr u1) (VStr u2))"
      using convert_float_cases[of u1 u2 rt "round64 q"] unfolding se by blast+
    show ?thesis
      using p q t se c1 c2 by blast
  qed
  have iff: "(try_unit_conversion rt s = Inr VNone) = (\<not> shorthand_shape s)"
  proof (cases "shorthand_shape s")
    case False
    then show ?thesis using none by simp
  next
    case True
    from some[OF True] obtain n u1 u2 q where
      t: "try_unit_conversion rt s = convert rt (VFloat (round64 q)) (VStr u1) (VStr u2)"
      by blast
    have "try_unit_conversion rt s \<noteq> Inr VNone"
      using convert_float_cases[of u1 u2 rt "round64 q"]
      by (cases "convertible u1 u2") (auto simp: t)
    then show ?thesis using True by simp
  qed
  have fall: "safe_eval rt s =
        (case ast_parse rt s of
           Inl e \<Rightarrow> Inl e
         | Inr tree \<Rightarrow> (case eval_node rt tree of Inl e \<Rightarrow> Inl e | Inr r \<Rightarrow> Inr (tidy r)))"
    if "\<not> shorthand_shape s"
    using none[OF that] by (simp add: safe_eval_def)
  show ?thesis using iff fall some by blast
qed

text \<open>C6 at \<open>"2 cups to g"\<close> (the shape, units of different dimensions) and at \<open>"10 / 4"\<close>.\<close>

theorem shorthand_recognizer_witness:
  "shorthand_shape (py ''2 cups to g'') \<and>
   safe_eval sample_runtime (py ''2 cups to g'')
     = Inl (ValueError_cant_convert (VStr (py ''cups'')) (VStr (py ''g''))) \<and>
   \<not> shorthand_shape (py ''10 / 4'') \<and>
   safe_eval sample_runtime (py ''10 / 4'') = Inr (VFloat (Fin (5 / 2)))"
proof -
  have a: "try_unit_conversion sample_runtime (py ''2 cups to g'')
      = Inl (ValueError_cant_convert (VStr (py ''cups'')) (VStr (py ''g'')))"
    by (simp add: try_unit_conversion_def regex_defs convert_defs)
  have b: "try_unit_conversion sample_runtime (py ''10 / 4'') = Inr VNone"
    by (simp add: try_unit_conversion_def regex_defs)
  have c: "ast_parse sample_runtime (py ''10 / 4'') = Inr (BinOp (Constant (VInt 10)) Div (Constant (VInt 4)))"
    by (simp add: sample_defs py_def)
  have s1: "shorthand_shape (py ''2 cups to g'')"
    using a shorthand_recognizer[of sample_runtime "py ''2 cups to g''"] by auto
  have s2: "\<not> shorthand_shape (py ''10 / 4'')"
    using b shorthand_recognizer[of sample_runtime "py ''10 / 4''"] by auto
  have e1: "safe_eval sample_runtime (py ''2 cups to g'')
     = Inl (ValueError_cant_convert (VStr (py ''cups'')) (VStr (py ''g'')))"
    using a by (simp add: safe_eval_def)
  have e2: "safe_eval sample_runtime (py ''10 / 4'') = Inr (VFloat (Fin (5 / 2)))"
    using s2 c shorthand_recognizer[of sample_runtime "py ''10 / 4''"]
    by (simp add: OPS_def py_truediv_def finite_or_overflow_def round64_5_2 tidy_def)
  show ?thesis using s1 s2 e1 e2 by simp
qed


text \<open>
  C10. The connector is matched case-sensitively. For every input made of a number, a unit
  token, a connector of odd case and a unit token, where the connector is set off by white
  space on both sides as in \<open>"2 cups TO ml"\<close>, \<open>try_unit_conversion\<close> returns \<open>None\<close> and
  \<open>safe_eval\<close> falls through to the parsing of the input as arithmetic. The connectors of
  odd case are \<open>TO\<close>, \<open>To\<close>, \<open>tO\<close>, \<open>IN\<close>, \<open>In\<close> and \<open>iN\<close>.
\<close>

theorem odd_case_connector_falls_through:
  "(blank w1 \<and> number_text n \<and> blank w2 \<and> unit_token u1 \<and> blank w3 \<and> w3 \<noteq> [] \<and>
    odd_case_connector c \<and> blank w4 \<and> w4 \<noteq> [] \<and> unit_token u2 \<and> blank w5 \<longrightarrow>
     try_unit_conversion rt (w1 @ n @ w2 @ u1 @ w3 @ c @ w4 @ u2 @ w5) = Inr VNone \<and>
     safe_eval rt (w1 @ n @ w2 @ u1 @ w3 @ c @ w4 @ u2 @ w5) =
       (case ast_parse rt (w1 @ n @ w2 @ u1 @ w3 @ c @ w4 @ u2 @ w5) of
          Inl e \<Rightarrow> Inl e
        | Inr tree \<Rightarrow> (case eval_node rt tree of Inl e \<Rightarrow> Inl e | Inr r \<Rightarrow> Inr (tidy r)))) \<and>
   odd_case_connector k = (k \<in> set (map py [''TO'', ''To'', ''tO'', ''IN'', ''In'', ''iN'']))"
proof (intro conjI impI, goal_cases)
  case 1
  let ?s = "w1 @ n @ w2 @ u1 @ w3 @ c @ w4 @ u2 @ w5"
  from 1 have "\<not> shorthand_shape ?s" by (intro odd_connector_no_shape) simp_all
  then show ?case
    using re_match_None[of ?s] by (simp add: try_unit_conversion_def)
next
  case 2
  let ?s = "w1 @ n @ w2 @ u1 @ w3 @ c @ w4 @ u2 @ w5"
  from 2 have "\<not> shorthand_shape ?s" by (intro odd_connector_no_shape) simp_all
  then have "try_unit_conversion rt ?s = Inr VNone"
    using re_match_None[of ?s] by (simp add: try_unit_conversion_def)
  then show ?case by (simp add: safe_eval_def)
next
  case 3
  show ?case by (rule odd_case_connector_iff)
qed

text \<open>C10 at \<open>"2 cups TO ml"\<close>, which the parser then rejects.\<close>

theorem odd_case_connector_witness:
  "blank [] \<and> number_text (py ''2'') \<and> blank (py '' '') \<and> unit_token (py ''cups'') \<and>
   py '' '' \<noteq> [] \<and> odd_case_connector (py ''TO'') \<and> unit_token (py ''ml'') \<and>
   try_unit_conversion sample_runtime (py ''2 cups TO ml'') = Inr VNone \<and>
   safe_eval sample_runtime (py ''2 cups TO ml'') = Inl (Raised ''SyntaxError'')"
proof -
  have h: "blank []" "number_text (py ''2'')" "blank (py '' '')" "unit_token (py ''cups'')"
    "py '' '' \<noteq> []" "odd_case_connector (py ''TO'')" "unit_token (py ''ml'')"
    by (simp_all add: blank_def number_text_def digits_def unit_token_def odd_case_connector_iff
        py_def white_space_def decimal_value_def zero_digits_def)
  have s: "[] @ py ''2'' @ py '' '' @ py ''cups'' @ py '' '' @ py ''TO'' @ py '' '' @ py ''ml'' @ []
      = py ''2 cups TO ml''"
    by (simp add: py_def)
  have p: "ast_parse sample_runtime (py ''2 cups TO ml'') = Inl (Raised ''SyntaxError'')"
    by (simp add: sample_defs py_def)
  show ?thesis
    using h p
      odd_case_connector_falls_through[of "[]" "py ''2''" "py '' ''" "py ''cups''" "py '' ''"
        "py ''TO''" "py '' ''" "py ''ml''" "[]" sample_runtime]
    unfolding s by simp
qed

end
